theory Spec2Isabelle
  imports Main "HOL-Library.AList" "HOL-Library.Char_ord" "HOL-Library.List_Lexorder"
begin

section \<open>The environment of the rotating file handlers\<close>

text \<open>
  The handlers of \<^verbatim>\<open>log/handler/rotating.go\<close> act on the file system, read the wall
  clock and share one package variable. All three are gathered in a record that every
  operation takes and returns. Go byte slices and strings are both \<open>string\<close> (a list of
  bytes); \<open>len\<close> is \<open>length\<close>.
\<close>

subsection \<open>Machine integers\<close>

text \<open>
  \<^verbatim>\<open>int64\<close> arithmetic wraps around. Go's \<^verbatim>\<open>int\<close> is taken to be 64 bits wide (the
  64-bit platforms), so the same wrap-around serves both.
\<close>

definition int64 :: "int \<Rightarrow> int" where
  "int64 x = (x + 2 ^ 63) mod 2 ^ 64 - 2 ^ 63"

subsection \<open>Calls, errors and outcomes\<close>

text \<open>
  Every call that reaches the operating system and can fail is named by an \<open>fs_op\<close>.
  \<open>OpOpen\<close> carries the path, the flag and the permission bits handed to
  \<^verbatim>\<open>os.OpenFile\<close>; \<open>OpStat\<close>, \<open>OpWrite\<close> and \<open>OpClose\<close> the path of the open file.
\<close>

datatype fs_op =
    OpOpen string nat nat
  | OpStat string
  | OpWrite string
  | OpClose string
  | OpRemove string
  | OpRename string string
  | OpListDir string

text \<open>
  \<open>ErrFileNotOpen\<close> is the package's own error value; \<open>ErrClosed\<close> is \<^verbatim>\<open>os.ErrClosed\<close>,
  returned by a use of an \<^verbatim>\<open>*os.File\<close> that was closed before; \<open>FsFailure op\<close> is the
  error of the failed system call \<open>op\<close>.
\<close>

datatype error = ErrFileNotOpen | ErrClosed | FsFailure fs_op

text \<open>A Go call either returns its results or panics.\<close>

datatype 'a outcome = Returns 'a | Panics

subsection \<open>The world\<close>

text \<open>
  \<^item> \<open>files\<close>: the regular files, path and content, in directory order. Directories
    are not entries of their own: every path is taken to lie in an existing directory.
  \<^item> \<open>trace\<close>: the system calls made so far, most recent first, each with the flag
    "it failed". It is an observer's log and is never read by the handlers.
  \<^item> \<open>fails\<close>: the failure schedule of the environment: \<open>fails w n op\<close> says that
    \<open>op\<close>, made as the call number \<open>n\<close>, fails (a full disk, a missing permission).
  \<^item> \<open>clock\<close>, \<open>ticks\<close>: \<open>clock w n\<close> is what the call number \<open>n\<close> of
    \<^verbatim>\<open>time.Now().Unix()\<close> returns; \<open>ticks\<close> counts the calls made.
  \<^item> \<open>zone\<close>: the offset of local time, in seconds east of UTC, at an instant.
  \<^item> \<open>cwd\<close>: the working directory of the process, a clean absolute path.
  \<^item> \<open>filePerm\<close>: the package variable \<^verbatim>\<open>filePerm\<close>.
\<close>

record world =
  files :: "(string \<times> string) list"
  trace :: "(fs_op \<times> bool) list"
  fails :: "nat \<Rightarrow> fs_op \<Rightarrow> bool"
  clock :: "nat \<Rightarrow> int"
  ticks :: nat
  zone :: "int \<Rightarrow> int"
  cwd :: string
  filePerm :: nat

definition content :: "world \<Rightarrow> string \<Rightarrow> string option" where
  "content w p = map_of (files w) p"

text \<open>
  \<open>sys_call op broken w\<close> logs the call \<open>op\<close>. It fails when the state of the file
  system makes it fail (\<open>broken\<close>, for instance the removal of a missing file) or when
  the schedule says so.
\<close>

definition sys_call :: "fs_op \<Rightarrow> bool \<Rightarrow> world \<Rightarrow> bool \<times> world" where
  "sys_call op broken w =
     (let failed = (broken \<or> fails w (length (trace w)) op)
      in (failed, w\<lparr>trace := (op, failed) # trace w\<rparr>))"

subsection \<open>The constants and the package variable\<close>

text \<open>
  \<^verbatim>\<open>FILE_MODE = os.O_APPEND | os.O_CREATE | os.O_WRONLY\<close> is \<open>0x400 + 0x40 + 0x1\<close> on
  Linux; \<^verbatim>\<open>FILE_PERM = 0644\<close> (octal); \<^verbatim>\<open>day = 3600 * 24\<close>.
\<close>

definition FILE_MODE :: nat where
  "FILE_MODE = 1089"

definition FILE_PERM :: nat where
  "FILE_PERM = 420"

definition day :: int where
  "day = 3600 * 24"

text \<open>\<^verbatim>\<open>filePerm = os.FileMode(perm)\<close>: the conversion of an \<^verbatim>\<open>int\<close> to \<^verbatim>\<open>uint32\<close>.\<close>

definition ResetDefaultFilePerm :: "int \<Rightarrow> world \<Rightarrow> world" where
  "ResetDefaultFilePerm perm w = w\<lparr>filePerm := nat (perm mod 2 ^ 32)\<rparr>"

subsection \<open>The standard library: files\<close>

text \<open>An \<^verbatim>\<open>*os.File\<close>: the path it was opened at, and whether it was closed.\<close>

record os_File =
  f_name :: string
  f_closed :: bool

text \<open>
  \<^verbatim>\<open>os.OpenFile(name, FILE_MODE, perm)\<close>: with \<^verbatim>\<open>O_CREATE\<close> a missing file is created
  empty; with \<^verbatim>\<open>O_APPEND\<close> later writes go to the end of the file.
\<close>

definition os_OpenFile :: "string \<Rightarrow> nat \<Rightarrow> nat \<Rightarrow> world \<Rightarrow> (error + os_File) \<times> world" where
  "os_OpenFile name flag perm w =
     (case sys_call (OpOpen name flag perm) False w of
        (failed, w1) \<Rightarrow>
          if failed then (Inl (FsFailure (OpOpen name flag perm)), w1)
          else
            (Inr \<lparr>f_name = name, f_closed = False\<rparr>,
             (case content w1 name of
                None \<Rightarrow> w1\<lparr>files := files w1 @ [(name, [])]\<rparr>
              | Some _ \<Rightarrow> w1)))"

text \<open>\<^verbatim>\<open>file.Stat()\<close>, of which the handlers read the size only.\<close>

definition os_File_Stat :: "os_File \<Rightarrow> world \<Rightarrow> (error + int) \<times> world" where
  "os_File_Stat f w =
     (if f_closed f then (Inl ErrClosed, w)
      else (case sys_call (OpStat (f_name f)) False w of
              (failed, w1) \<Rightarrow>
                if failed then (Inl (FsFailure (OpStat (f_name f))), w1)
                else
                  (Inr (case content w1 (f_name f) of None \<Rightarrow> 0 | Some c \<Rightarrow> int (length c)), w1)))"

text \<open>
  \<^verbatim>\<open>file.Write(data)\<close> appends the whole of \<open>data\<close>, or fails and (in this model)
  writes nothing. A file whose path was taken away while it was open receives the bytes
  out of sight of every path.
\<close>

definition os_File_Write :: "os_File \<Rightarrow> string \<Rightarrow> world \<Rightarrow> (int \<times> error option) \<times> world" where
  "os_File_Write f data w =
     (if f_closed f then ((0, Some ErrClosed), w)
      else (case sys_call (OpWrite (f_name f)) False w of
              (failed, w1) \<Rightarrow>
                if failed then ((0, Some (FsFailure (OpWrite (f_name f)))), w1)
                else
                  ((int (length data), None),
                   (case content w1 (f_name f) of
                      None \<Rightarrow> w1
                    | Some c \<Rightarrow> w1\<lparr>files := AList.update (f_name f) (c @ data) (files w1)\<rparr>))))"

text \<open>
  \<^verbatim>\<open>file.Close()\<close>: the file counts as closed afterwards whether or not the system
  call failed; closing it again returns \<^verbatim>\<open>os.ErrClosed\<close>.
\<close>

definition os_File_Close :: "os_File \<Rightarrow> world \<Rightarrow> error option \<times> os_File \<times> world" where
  "os_File_Close f w =
     (if f_closed f then (Some ErrClosed, f, w)
      else (case sys_call (OpClose (f_name f)) False w of
              (failed, w1) \<Rightarrow>
                if failed then (Some (FsFailure (OpClose (f_name f))), f\<lparr>f_closed := True\<rparr>, w1)
                else (None, f\<lparr>f_closed := True\<rparr>, w1)))"

text \<open>\<^verbatim>\<open>os.Remove(name)\<close> fails on a missing file.\<close>

definition os_Remove :: "string \<Rightarrow> world \<Rightarrow> error option \<times> world" where
  "os_Remove name w =
     (case sys_call (OpRemove name) (content w name = None) w of
        (failed, w1) \<Rightarrow>
          if failed then (Some (FsFailure (OpRemove name)), w1)
          else (None, w1\<lparr>files := AList.delete name (files w1)\<rparr>))"

text \<open>\<^verbatim>\<open>os.Rename(old, new)\<close> fails on a missing source and replaces an existing target.\<close>

definition os_Rename :: "string \<Rightarrow> string \<Rightarrow> world \<Rightarrow> error option \<times> world" where
  "os_Rename old new w =
     (case sys_call (OpRename old new) (content w old = None) w of
        (failed, w1) \<Rightarrow>
          if failed then (Some (FsFailure (OpRename old new)), w1)
          else
            (None,
             (case content w1 old of
                None \<Rightarrow> w1
              | Some c \<Rightarrow>
                  if old = new then w1
                  else w1\<lparr>files := AList.update new c (AList.delete old (files w1))\<rparr>)))"

subsection \<open>The standard library: formatting\<close>

text \<open>
  The verb \<^verbatim>\<open>%d\<close> of \<^verbatim>\<open>fmt.Sprintf\<close>: a decimal numeral, with a sign when negative.
  \<open>digits\<close> writes a number that is not negative.
\<close>

definition digit_char :: "int \<Rightarrow> char" where
  "digit_char d =
     (if d = 0 then CHR ''0'' else if d = 1 then CHR ''1'' else if d = 2 then CHR ''2''
      else if d = 3 then CHR ''3'' else if d = 4 then CHR ''4'' else if d = 5 then CHR ''5''
      else if d = 6 then CHR ''6'' else if d = 7 then CHR ''7'' else if d = 8 then CHR ''8''
      else CHR ''9'')"

function digits :: "int \<Rightarrow> string" where
  "digits n =
     (if n < 10 then [digit_char n]
      else digits (n div 10) @ [digit_char (n mod 10)])"
  by pat_completeness auto
termination
  by (relation "measure nat") auto

declare digits.simps [simp del]

text \<open>The way back from a numeral to its number, to tell two numerals apart.\<close>

definition digit_val :: "char \<Rightarrow> int" where
  "digit_val c = int (length (takeWhile (\<lambda>d. d \<noteq> c) ''0123456789''))"

definition number_of :: "string \<Rightarrow> int" where
  "number_of ds = foldl (\<lambda>a c. 10 * a + digit_val c) 0 ds"

definition itoa :: "int \<Rightarrow> string" where
  "itoa i = (if i < 0 then CHR ''-'' # digits (- i) else digits i)"

text \<open>\<^verbatim>\<open>fmt.Sprintf("%s.%d", s, i)\<close>.\<close>

definition Sprintf_s_d :: "string \<Rightarrow> int \<Rightarrow> string" where
  "Sprintf_s_d s i = s @ ''.'' @ itoa i"

subsection \<open>The helpers of the sibling packages\<close>

text \<open>
  Modelled from the spec: \<^verbatim>\<open>file.IsExist\<close>, \<^verbatim>\<open>file.IsFile\<close> and \<^verbatim>\<open>file.ListDir\<close> of the
  package \<^verbatim>\<open>file\<close>, which the spec names "does path exist", "is path a regular
  file" and "list directory entries (returns plain filenames, not full paths)". The
  two predicates return a plain boolean and cannot report a failure. The world holds
  regular files only, so they agree.
\<close>

definition file_IsExist :: "string \<Rightarrow> world \<Rightarrow> bool" where
  "file_IsExist name w = (content w name \<noteq> None)"

definition file_IsFile :: "string \<Rightarrow> world \<Rightarrow> bool" where
  "file_IsFile name w = (content w name \<noteq> None)"

text \<open>
  The standard library's \<^verbatim>\<open>path/filepath\<close> on Unix. \<^verbatim>\<open>filepath.Split\<close> cuts a path
  right after its last separator.
\<close>

definition filepath_Split :: "string \<Rightarrow> string \<times> string" where
  "filepath_Split path =
     (let n = length path - length (takeWhile (\<lambda>c. c \<noteq> CHR ''/'') (rev path))
      in (take n path, drop n path))"

text \<open>
  \<^verbatim>\<open>filepath.Clean\<close>: separators are merged, \<^verbatim>\<open>.\<close> elements dropped, an inner \<^verbatim>\<open>..\<close>
  removed with the element before it, a \<^verbatim>\<open>..\<close> at the root dropped; the empty result
  is \<^verbatim>\<open>.\<close>, or \<^verbatim>\<open>/\<close> for a rooted path.
\<close>

fun split_slash :: "string \<Rightarrow> string list" where
  "split_slash [] = [[]]"
| "split_slash (c # cs) =
     (if c = CHR ''/'' then [] # split_slash cs
      else (case split_slash cs of
              [] \<Rightarrow> [[c]]
            | x # xs \<Rightarrow> (c # x) # xs))"

fun join_slash :: "string list \<Rightarrow> string" where
  "join_slash [] = []"
| "join_slash [x] = x"
| "join_slash (x # y # ys) = x @ ''/'' @ join_slash (y # ys)"

definition filepath_IsAbs :: "string \<Rightarrow> bool" where
  "filepath_IsAbs path = (case path of [] \<Rightarrow> False | c # _ \<Rightarrow> c = CHR ''/'')"

text \<open>One element of the path met by \<^verbatim>\<open>Clean\<close>; the elements kept so far, last first.\<close>

definition clean_step :: "bool \<Rightarrow> string list \<Rightarrow> string \<Rightarrow> string list" where
  "clean_step rooted kept elem =
     (if elem = [] \<or> elem = ''.'' then kept
      else if elem = ''..'' then
        (case kept of
           [] \<Rightarrow> if rooted then [] else [elem]
         | e # rest \<Rightarrow> if e = ''..'' then elem # kept else rest)
      else elem # kept)"

definition filepath_Clean :: "string \<Rightarrow> string" where
  "filepath_Clean path =
     (if path = [] then ''.''
      else (case rev (foldl (clean_step (filepath_IsAbs path)) [] (split_slash path)) of
              elems \<Rightarrow>
                if filepath_IsAbs path then ''/'' @ join_slash elems
                else if elems = [] then ''.''
                else join_slash elems))"

text \<open>
  \<^verbatim>\<open>filepath.Join\<close> of two elements: empty elements are ignored and the result is
  cleaned; with nothing left it is the empty string.
\<close>

definition filepath_Join :: "string \<Rightarrow> string \<Rightarrow> string" where
  "filepath_Join dir name =
     (case filter (\<lambda>e. e \<noteq> []) [dir, name] of
        [] \<Rightarrow> []
      | elems \<Rightarrow> filepath_Clean (join_slash elems))"

text \<open>
  \<^verbatim>\<open>filepath.Abs\<close>: an absolute path is cleaned, a relative one is joined to the working
  directory.
\<close>

definition filepath_Abs :: "string \<Rightarrow> world \<Rightarrow> string" where
  "filepath_Abs path w =
     (if filepath_IsAbs path then filepath_Clean path else filepath_Join (cwd w) path)"

definition file_ListDir :: "string \<Rightarrow> world \<Rightarrow> (error + string list) \<times> world" where
  "file_ListDir dirName w =
     (case sys_call (OpListDir dirName) False w of
        (failed, w1) \<Rightarrow>
          if failed then (Inl (FsFailure (OpListDir dirName)), w1)
          else
            (Inr (map (\<lambda>p. snd (filepath_Split p))
                    (filter (\<lambda>p. fst (filepath_Split p) = dirName) (map fst (files w1)))), w1))"

text \<open>
  Modelled from the spec: \<^verbatim>\<open>function.Range(start, stop, step)\<close> of the package
  \<^verbatim>\<open>function\<close>, "generate a descending/ascending integer sequence for ladder
  iteration"; the spec reads \<^verbatim>\<open>Range(backupCount-1, 0, -1)\<close> as "for \<open>i\<close> from
  \<open>backupCount - 1\<close> down to \<open>1\<close>": \<open>start\<close> is included, \<open>stop\<close> is not.
\<close>

fun range_from :: "int \<Rightarrow> int \<Rightarrow> nat \<Rightarrow> int list" where
  "range_from start step 0 = []"
| "range_from start step (Suc n) = start # range_from (start + step) step n"

definition function_Range :: "int \<Rightarrow> int \<Rightarrow> int \<Rightarrow> int list" where
  "function_Range start stop step =
     (if step > 0 then range_from start step (nat ((stop - start + step - 1) div step))
      else if step < 0 then range_from start step (nat ((start - stop - step - 1) div (- step)))
      else [])"

subsection \<open>The file handle wrapper\<close>

text \<open>
  Modelled from the spec: the type \<^verbatim>\<open>WriteCloser\<close> of this package and its
  \<^verbatim>\<open>NewWriteCloser\<close>, \<^verbatim>\<open>Write\<close>, \<^verbatim>\<open>Close\<close> and \<^verbatim>\<open>Closed\<close>: "a minimal owned resource
  exposing write(bytes), close() and isClosed()", a wrapper of the open file that
  tracks a closed flag. A method that reads the wrapper panics on a nil pointer.
\<close>

record WriteCloser =
  wc_w :: os_File
  wc_closed :: bool

definition NewWriteCloser :: "os_File \<Rightarrow> WriteCloser" where
  "NewWriteCloser f = \<lparr>wc_w = f, wc_closed = False\<rparr>"

definition WriteCloser_Closed :: "WriteCloser \<Rightarrow> bool" where
  "WriteCloser_Closed wc = wc_closed wc"

definition WriteCloser_Write ::
  "WriteCloser option \<Rightarrow> string \<Rightarrow> world \<Rightarrow> ((int \<times> error option) \<times> world) outcome" where
  "WriteCloser_Write p data w =
     (case p of
        None \<Rightarrow> Panics
      | Some wc \<Rightarrow> Returns (os_File_Write (wc_w wc) data w))"

definition WriteCloser_Close :: "WriteCloser \<Rightarrow> world \<Rightarrow> error option \<times> WriteCloser \<times> world" where
  "WriteCloser_Close wc w =
     (case os_File_Close (wc_w wc) w of
        (err, f, w1) \<Rightarrow> (err, wc\<lparr>wc_w := f, wc_closed := True\<rparr>, w1))"

section \<open>RotatingFile: rotation by size\<close>

record RotatingFile =
  r_w :: "WriteCloser option"
  r_filename :: string
  r_maxSize :: int
  r_backupCount :: int
  r_nbytes :: int

text \<open>\<^verbatim>\<open>func (r *RotatingFile) open() (err error)\<close>\<close>

definition RotatingFile_open :: "RotatingFile \<Rightarrow> world \<Rightarrow> error option \<times> RotatingFile \<times> world" where
  "RotatingFile_open r w =
     (case os_OpenFile (r_filename r) FILE_MODE FILE_PERM w of
        (Inl e, w1) \<Rightarrow> (Some e, r, w1)
      | (Inr file, w1) \<Rightarrow>
          (case os_File_Stat file w1 of
             (Inl e, w2) \<Rightarrow> (Some e, r, w2)
           | (Inr sz, w2) \<Rightarrow>
               (None, r\<lparr>r_nbytes := sz, r_w := Some (NewWriteCloser file)\<rparr>, w2)))"

text \<open>\<^verbatim>\<open>func NewRotatingFile(filename string, size, count int) *RotatingFile\<close>\<close>

definition NewRotatingFile ::
  "string \<Rightarrow> int \<Rightarrow> int \<Rightarrow> world \<Rightarrow> (RotatingFile \<times> world) outcome" where
  "NewRotatingFile filename sz count w =
     (case RotatingFile_open
             \<lparr>r_w = None, r_filename = filename, r_maxSize = sz,
              r_backupCount = count, r_nbytes = 0\<rparr> w of
        (Some e, r, w1) \<Rightarrow> Panics
      | (None, r, w1) \<Rightarrow> Returns (r, w1))"

text \<open>\<^verbatim>\<open>func (r *RotatingFile) close() (err error)\<close>\<close>

definition RotatingFile_close :: "RotatingFile \<Rightarrow> world \<Rightarrow> error option \<times> RotatingFile \<times> world" where
  "RotatingFile_close r w =
     (case r_w r of
        None \<Rightarrow> (None, r, w)
      | Some wc \<Rightarrow>
          (case WriteCloser_Close wc w of
             (err, wc1, w1) \<Rightarrow> (err, r\<lparr>r_w := None\<rparr>, w1)))"

text \<open>\<^verbatim>\<open>func (r *RotatingFile) Close() (err error)\<close>, the lock left out.\<close>

definition RotatingFile_Close :: "RotatingFile \<Rightarrow> world \<Rightarrow> error option \<times> RotatingFile \<times> world" where
  "RotatingFile_Close r w = RotatingFile_close r w"

text \<open>
  The loop of \<^verbatim>\<open>doRollover\<close> over \<^verbatim>\<open>function.Range(r.backupCount-1, 0, -1)\<close>. An error
  of \<^verbatim>\<open>os.Remove\<close> or \<^verbatim>\<open>os.Rename\<close> leaves the loop and the function. The rename
  stands inside the test of the target, as in the source.
\<close>

fun rollover_shift :: "string \<Rightarrow> int list \<Rightarrow> world \<Rightarrow> error option \<times> world" where
  "rollover_shift filename [] w = (None, w)"
| "rollover_shift filename (i # rest) w =
     (let sfn = Sprintf_s_d filename i;
          dfn = Sprintf_s_d filename (int64 (i + 1))
      in if file_IsExist sfn w then
           if file_IsExist dfn w then
             (case os_Remove dfn w of
                (Some e, w1) \<Rightarrow> (Some e, w1)
              | (None, w1) \<Rightarrow>
                  (case os_Rename sfn dfn w1 of
                     (Some e, w2) \<Rightarrow> (Some e, w2)
                   | (None, w2) \<Rightarrow> rollover_shift filename rest w2))
           else rollover_shift filename rest w
         else rollover_shift filename rest w)"

text \<open>The statements of \<^verbatim>\<open>doRollover\<close> after the loop, on \<^verbatim>\<open>r.filename + ".1"\<close>.\<close>

definition rollover_retire :: "string \<Rightarrow> world \<Rightarrow> error option \<times> world" where
  "rollover_retire filename w =
     (let dfn = filename @ ''.1'' in
      case (if file_IsExist dfn w then os_Remove dfn w else (None, w)) of
        (Some e, w1) \<Rightarrow> (Some e, w1)
      | (None, w1) \<Rightarrow>
          (if file_IsExist filename w1 then os_Rename filename dfn w1 else (None, w1)))"

text \<open>\<^verbatim>\<open>func (r *RotatingFile) doRollover() (err error)\<close>: the result of \<^verbatim>\<open>r.close()\<close> is dropped.\<close>

definition RotatingFile_doRollover ::
  "RotatingFile \<Rightarrow> world \<Rightarrow> error option \<times> RotatingFile \<times> world" where
  "RotatingFile_doRollover r w =
     (case RotatingFile_close r w of
        (_, r1, w1) \<Rightarrow>
          (if r_backupCount r1 > 0 then
             (case rollover_shift (r_filename r1)
                     (function_Range (int64 (r_backupCount r1 - 1)) 0 (- 1)) w1 of
                (Some e, w2) \<Rightarrow> (Some e, r1, w2)
              | (None, w2) \<Rightarrow>
                  (case rollover_retire (r_filename r1) w2 of
                     (Some e, w3) \<Rightarrow> (Some e, r1, w3)
                   | (None, w3) \<Rightarrow> RotatingFile_open r1 w3))
           else RotatingFile_open r1 w1))"

text \<open>
  \<^verbatim>\<open>func (r *RotatingFile) Write(data []byte) (n int, err error)\<close>, the lock left out.
  The results are \<open>(n, err)\<close>, the handler and the world.
\<close>

definition RotatingFile_Write ::
  "RotatingFile \<Rightarrow> string \<Rightarrow> world \<Rightarrow> ((int \<times> error option) \<times> RotatingFile \<times> world) outcome" where
  "RotatingFile_Write r data w =
     (if (case r_w r of None \<Rightarrow> True | Some wc \<Rightarrow> WriteCloser_Closed wc)
      then Returns ((0, Some ErrFileNotOpen), r, w)
      else
        (case (if int64 (r_nbytes r + int (length data)) > r_maxSize r
               then RotatingFile_doRollover r w else (None, r, w)) of
           (Some e, r1, w1) \<Rightarrow> Returns ((0, Some e), r1, w1)
         | (None, r1, w1) \<Rightarrow>
             (case WriteCloser_Write (r_w r1) data w1 of
                Panics \<Rightarrow> Panics
              | Returns ((n, Some e), w2) \<Rightarrow> Returns ((n, Some e), r1, w2)
              | Returns ((n, None), w2) \<Rightarrow>
                  Returns ((n, None), r1\<lparr>r_nbytes := int64 (r_nbytes r1 + n)\<rparr>, w2))))"

text \<open>\<^verbatim>\<open>func (r *RotatingFile) WriteString(data string) (n int, err error)\<close>\<close>

definition RotatingFile_WriteString ::
  "RotatingFile \<Rightarrow> string \<Rightarrow> world \<Rightarrow> ((int \<times> error option) \<times> RotatingFile \<times> world) outcome" where
  "RotatingFile_WriteString r data w =
     (case WriteCloser_Write (r_w r) data w of
        Panics \<Rightarrow> Panics
      | Returns (res, w1) \<Rightarrow> Returns (res, r, w1))"

section \<open>TimedRotatingFile: rotation by day\<close>

subsection \<open>The standard library: time\<close>

text \<open>\<^verbatim>\<open>time.Now().Unix()\<close> reads the clock.\<close>

definition time_Now_Unix :: "world \<Rightarrow> int \<times> world" where
  "time_Now_Unix w = (clock w (ticks w), w\<lparr>ticks := Suc (ticks w)\<rparr>)"

text \<open>
  \<^verbatim>\<open>time.Unix(sec, 0)\<close> is a local time; \<^verbatim>\<open>Hour\<close>, \<^verbatim>\<open>Minute\<close> and \<^verbatim>\<open>Second\<close> read it
  with the zone offset in force at \<open>sec\<close>.
\<close>

definition local_seconds :: "world \<Rightarrow> int \<Rightarrow> int" where
  "local_seconds w sec = sec + zone w sec"

definition time_Hour :: "world \<Rightarrow> int \<Rightarrow> int" where
  "time_Hour w sec = (local_seconds w sec mod 86400) div 3600"

definition time_Minute :: "world \<Rightarrow> int \<Rightarrow> int" where
  "time_Minute w sec = (local_seconds w sec mod 3600) div 60"

definition time_Second :: "world \<Rightarrow> int \<Rightarrow> int" where
  "time_Second w sec = local_seconds w sec mod 60"

text \<open>The civil date (year, month, day) of a day number counted from 1970-01-01.\<close>

definition civil_from_days :: "int \<Rightarrow> int \<times> int \<times> int" where
  "civil_from_days z0 =
     (let z = z0 + 719468;
          era = z div 146097;
          doe = z - era * 146097;
          yoe = (doe - doe div 1460 + doe div 36524 - doe div 146096) div 365;
          doy = doe - (365 * yoe + yoe div 4 - yoe div 100);
          mp = (5 * doy + 2) div 153;
          d = doy - (153 * mp + 2) div 5 + 1;
          m = (if mp < 10 then mp + 3 else mp - 9);
          y = yoe + era * 400 + (if m \<le> 2 then 1 else 0)
      in (y, m, d))"

definition zero_pad :: "nat \<Rightarrow> int \<Rightarrow> string" where
  "zero_pad width i =
     (case (if i < 0 then digits (- i) else digits i) of
        ds \<Rightarrow>
          (if i < 0 then ''-'' else []) @ replicate (width - length ds) CHR ''0'' @ ds)"

definition DAY_FMT :: string where
  "DAY_FMT = ''2006-01-02''"

text \<open>
  \<^verbatim>\<open>time.Unix(sec, 0).Format(layout)\<close>, for the two layouts that \<^verbatim>\<open>time2fmt[t.when]\<close>
  can give: \<^verbatim>\<open>DAY_FMT\<close>, and the empty string of a missing key, which formats to
  the empty string.
\<close>

definition time_Format :: "string \<Rightarrow> world \<Rightarrow> int \<Rightarrow> string" where
  "time_Format layout w sec =
     (if layout = DAY_FMT then
        (case civil_from_days (local_seconds w sec div 86400) of
           (y, m, d) \<Rightarrow> zero_pad 4 y @ ''-'' @ zero_pad 2 m @ ''-'' @ zero_pad 2 d)
      else [])"

text \<open>\<^verbatim>\<open>time2fmt = map[int64]string{day: DAY_FMT}\<close>; a missing key reads as \<^verbatim>\<open>""\<close>.\<close>

definition time2fmt :: "int \<Rightarrow> string" where
  "time2fmt k = (if k = day then DAY_FMT else [])"

text \<open>
  \<^verbatim>\<open>dayRE = regexp.MustCompile(`^\d{4}-\d{2}-\d{2}(\.\w+)?$`)\<close> and its \<^verbatim>\<open>MatchString\<close>:
  \<^verbatim>\<open>\d\<close> is an ASCII digit, \<^verbatim>\<open>\w\<close> an ASCII letter, digit or underscore, and \<^verbatim>\<open>$\<close>
  the end of the text.
\<close>

definition is_digit :: "char \<Rightarrow> bool" where
  "is_digit c = (CHR ''0'' \<le> c \<and> c \<le> CHR ''9'')"

definition is_word :: "char \<Rightarrow> bool" where
  "is_word c =
     (is_digit c \<or> (CHR ''a'' \<le> c \<and> c \<le> CHR ''z'') \<or> (CHR ''A'' \<le> c \<and> c \<le> CHR ''Z'')
      \<or> c = CHR ''_'')"

definition dayRE :: "string \<Rightarrow> bool" where
  "dayRE s =
     (10 \<le> length s \<and>
      list_all is_digit (take 4 s) \<and> s ! 4 = CHR ''-'' \<and>
      list_all is_digit (take 2 (drop 5 s)) \<and> s ! 7 = CHR ''-'' \<and>
      list_all is_digit (take 2 (drop 8 s)) \<and>
      (length s = 10 \<or>
       (s ! 10 = CHR ''.'' \<and> 11 < length s \<and> list_all is_word (drop 11 s))))"

subsection \<open>The handler\<close>

text \<open>
  \<open>t_w\<close> is the interface value \<^verbatim>\<open>t.w\<close>, \<open>None\<close> when nil; \<open>t_extRE\<close> is the
  \<^verbatim>\<open>MatchString\<close> of the compiled expression.
\<close>

record TimedRotatingFile =
  t_w :: "os_File option"
  t_filename :: string
  t_backupCount :: int
  t_interval :: int
  t_when :: int
  t_rotatorAt :: int
  t_extRE :: "string \<Rightarrow> bool"

text \<open>\<^verbatim>\<open>func (t *TimedRotatingFile) reComputeRollover()\<close>\<close>

definition TimedRotatingFile_reComputeRollover ::
  "TimedRotatingFile \<Rightarrow> world \<Rightarrow> TimedRotatingFile \<times> world" where
  "TimedRotatingFile_reComputeRollover t w =
     (case time_Now_Unix w of
        (currentTime, w1) \<Rightarrow>
          (let currentHour = time_Hour w1 currentTime;
               currentMinute = time_Minute w1 currentTime;
               currentSecond = time_Second w1 currentTime;
               r = int64 (t_interval t - int64 ((currentHour * 60 + currentMinute) * 60 + currentSecond))
           in (t\<lparr>t_rotatorAt := int64 (currentTime + r)\<rparr>, w1)))"

text \<open>\<^verbatim>\<open>func (t *TimedRotatingFile) SetBackupCount(num int) *TimedRotatingFile\<close>\<close>

definition TimedRotatingFile_SetBackupCount :: "int \<Rightarrow> TimedRotatingFile \<Rightarrow> TimedRotatingFile" where
  "TimedRotatingFile_SetBackupCount num t = t\<lparr>t_backupCount := num\<rparr>"

text \<open>\<^verbatim>\<open>func (t *TimedRotatingFile) SetInterval(interval int) *TimedRotatingFile\<close>\<close>

definition TimedRotatingFile_SetInterval ::
  "int \<Rightarrow> TimedRotatingFile \<Rightarrow> world \<Rightarrow> TimedRotatingFile \<times> world" where
  "TimedRotatingFile_SetInterval interval t w =
     TimedRotatingFile_reComputeRollover (t\<lparr>t_interval := int64 (interval * t_when t)\<rparr>) w"

text \<open>\<^verbatim>\<open>func (t *TimedRotatingFile) shouldRollover() bool\<close>\<close>

definition TimedRotatingFile_shouldRollover :: "TimedRotatingFile \<Rightarrow> world \<Rightarrow> bool \<times> world" where
  "TimedRotatingFile_shouldRollover t w =
     (case time_Now_Unix w of (now, w1) \<Rightarrow> (now \<ge> t_rotatorAt t, w1))"

text \<open>\<^verbatim>\<open>func (t *TimedRotatingFile) open() error\<close>\<close>

definition TimedRotatingFile_open ::
  "TimedRotatingFile \<Rightarrow> world \<Rightarrow> error option \<times> TimedRotatingFile \<times> world" where
  "TimedRotatingFile_open t w =
     (case os_OpenFile (t_filename t) FILE_MODE FILE_PERM w of
        (Inl err, w1) \<Rightarrow> (Some err, t, w1)
      | (Inr file, w1) \<Rightarrow> (None, t\<lparr>t_w := Some file\<rparr>, w1))"

text \<open>
  \<^verbatim>\<open>func (t *TimedRotatingFile) Close() (err error)\<close>: the method call \<^verbatim>\<open>t.w.Close()\<close>
  on a nil interface value is a nil dereference, a run-time panic.
\<close>

definition TimedRotatingFile_Close ::
  "TimedRotatingFile \<Rightarrow> world \<Rightarrow> (error option \<times> TimedRotatingFile \<times> world) outcome" where
  "TimedRotatingFile_Close t w =
     (case t_w t of
        None \<Rightarrow> Panics
      | Some f \<Rightarrow>
          (case os_File_Close f w of
             (Some err, f1, w1) \<Rightarrow> Returns (Some err, t\<lparr>t_w := Some f1\<rparr>, w1)
           | (None, f1, w1) \<Rightarrow> Returns (None, t\<lparr>t_w := None\<rparr>, w1)))"

text \<open>
  \<^verbatim>\<open>func (t *TimedRotatingFile) getFilesToDelete() []string\<close>. Its only caller runs it
  under \<^verbatim>\<open>t.backupCount > 0\<close>, where the final reslice stays inside the slice.
\<close>

definition TimedRotatingFile_getFilesToDelete ::
  "TimedRotatingFile \<Rightarrow> world \<Rightarrow> string list \<times> world" where
  "TimedRotatingFile_getFilesToDelete t w =
     (case filepath_Split (t_filename t) of
        (dirName, baseName) \<Rightarrow>
          (case file_ListDir dirName w of
             (Inl err, w1) \<Rightarrow> ([], w1)
           | (Inr fileNames, w1) \<Rightarrow>
               (let prefix = baseName @ ''.'';
                    plen = length prefix;
                    result =
                      map (filepath_Join dirName)
                        (filter (\<lambda>fileName. \<not> length fileName \<le> plen \<and>
                                   prefix = take plen fileName \<and>
                                   t_extRE t (drop plen fileName)) fileNames)
                in if int (length result) \<le> t_backupCount t then ([], w1)
                   else (take (nat (int (length result) - t_backupCount t)) (sort result), w1))))"

text \<open>The loop \<^verbatim>\<open>for _, file := range ... { os.Remove(file) }\<close>: the errors are dropped.\<close>

fun remove_each :: "string list \<Rightarrow> world \<Rightarrow> world" where
  "remove_each [] w = w"
| "remove_each (file # rest) w = remove_each rest (snd (os_Remove file w))"

text \<open>\<^verbatim>\<open>func (t *TimedRotatingFile) doRollover() (err error)\<close>\<close>

definition TimedRotatingFile_doRollover ::
  "TimedRotatingFile \<Rightarrow> world \<Rightarrow> (error option \<times> TimedRotatingFile \<times> world) outcome" where
  "TimedRotatingFile_doRollover t w =
     (case TimedRotatingFile_Close t w of
        Panics \<Rightarrow> Panics
      | Returns (Some err, t1, w1) \<Rightarrow> Returns (Some err, t1, w1)
      | Returns (None, t1, w1) \<Rightarrow>
          (let dstTime = int64 (t_rotatorAt t1 - t_interval t1);
               dstPath = t_filename t1 @ ''.'' @ time_Format (time2fmt (t_when t1)) w1 dstTime;
               w2 = (if file_IsExist dstPath w1 then snd (os_Remove dstPath w1) else w1)
           in case (if file_IsFile (t_filename t1) w2
                    then os_Rename (t_filename t1) dstPath w2 else (None, w2)) of
                (Some err, w3) \<Rightarrow> Returns (Some err, t1, w3)
              | (None, w3) \<Rightarrow>
                  (let w5 = (if t_backupCount t1 > 0
                             then (case TimedRotatingFile_getFilesToDelete t1 w3 of
                                     (doomed, w4) \<Rightarrow> remove_each doomed w4)
                             else w3)
                   in case TimedRotatingFile_reComputeRollover t1 w5 of
                        (t2, w6) \<Rightarrow> Returns (TimedRotatingFile_open t2 w6))))"

text \<open>
  The stages of \<^verbatim>\<open>doRollover\<close> one by one, each taking the results of the one before:
  the destination path, the removal of an older file at that path, the rename, the
  pruning, and the recomputation with the reopen. They serve to run the function on
  concrete worlds.
\<close>

definition rollover_dstPath :: "TimedRotatingFile \<Rightarrow> world \<Rightarrow> string" where
  "rollover_dstPath t w =
     t_filename t @ ''.'' @ time_Format (time2fmt (t_when t)) w (int64 (t_rotatorAt t - t_interval t))"

definition rollover_unlink :: "string \<Rightarrow> world \<Rightarrow> world" where
  "rollover_unlink dstPath w = (if file_IsExist dstPath w then snd (os_Remove dstPath w) else w)"

definition rollover_rename :: "TimedRotatingFile \<Rightarrow> string \<Rightarrow> world \<Rightarrow> error option \<times> world" where
  "rollover_rename t dstPath w =
     (if file_IsFile (t_filename t) w then os_Rename (t_filename t) dstPath w else (None, w))"

fun rollover_listed :: "string list \<times> world \<Rightarrow> world" where
  "rollover_listed (doomed, w) = remove_each doomed w"

definition rollover_prune :: "TimedRotatingFile \<Rightarrow> world \<Rightarrow> world" where
  "rollover_prune t w =
     (if t_backupCount t > 0 then rollover_listed (TimedRotatingFile_getFilesToDelete t w) else w)"

fun rollover_reopen ::
  "TimedRotatingFile \<times> world \<Rightarrow> (error option \<times> TimedRotatingFile \<times> world) outcome" where
  "rollover_reopen (t, w) = Returns (TimedRotatingFile_open t w)"

fun rollover_renamed ::
  "TimedRotatingFile \<Rightarrow> error option \<times> world
     \<Rightarrow> (error option \<times> TimedRotatingFile \<times> world) outcome" where
  "rollover_renamed t (Some err, w) = Returns (Some err, t, w)"
| "rollover_renamed t (None, w) =
     rollover_reopen (TimedRotatingFile_reComputeRollover t (rollover_prune t w))"

fun rollover_closed ::
  "(error option \<times> TimedRotatingFile \<times> world) outcome
     \<Rightarrow> (error option \<times> TimedRotatingFile \<times> world) outcome" where
  "rollover_closed Panics = Panics"
| "rollover_closed (Returns (Some err, t, w)) = Returns (Some err, t, w)"
| "rollover_closed (Returns (None, t, w)) =
     rollover_renamed t
       (rollover_rename t (rollover_dstPath t w) (rollover_unlink (rollover_dstPath t w) w))"

text \<open>
  \<^verbatim>\<open>func (t *TimedRotatingFile) Write(data []byte) (n int, err error)\<close>, the lock left
  out. The results are \<open>(n, err)\<close>, the handler and the world.
\<close>

definition TimedRotatingFile_Write ::
  "TimedRotatingFile \<Rightarrow> string \<Rightarrow> world
     \<Rightarrow> ((int \<times> error option) \<times> TimedRotatingFile \<times> world) outcome" where
  "TimedRotatingFile_Write t data w =
     (case t_w t of
        None \<Rightarrow> Returns ((0, Some ErrFileNotOpen), t, w)
      | Some _ \<Rightarrow>
          (case TimedRotatingFile_shouldRollover t w of
             (due, w1) \<Rightarrow>
               (case (if due then TimedRotatingFile_doRollover t w1 else Returns (None, t, w1)) of
                  Panics \<Rightarrow> Panics
                | Returns (Some err, t1, w2) \<Rightarrow> Returns ((0, Some err), t1, w2)
                | Returns (None, t1, w2) \<Rightarrow>
                    (case t_w t1 of
                       None \<Rightarrow> Panics
                     | Some f \<Rightarrow>
                         (case os_File_Write f data w2 of
                            (res, w3) \<Rightarrow> Returns (res, t1, w3))))))"

text \<open>\<^verbatim>\<open>func (t *TimedRotatingFile) WriteString(data string) (n int, err error)\<close>\<close>

definition TimedRotatingFile_WriteString ::
  "TimedRotatingFile \<Rightarrow> string \<Rightarrow> world
     \<Rightarrow> ((int \<times> error option) \<times> TimedRotatingFile \<times> world) outcome" where
  "TimedRotatingFile_WriteString t data w = TimedRotatingFile_Write t data w"

text \<open>\<^verbatim>\<open>func NewTimedRotatingFile(filename string) *TimedRotatingFile\<close>\<close>

definition NewTimedRotatingFile :: "string \<Rightarrow> world \<Rightarrow> (TimedRotatingFile \<times> world) outcome" where
  "NewTimedRotatingFile filename w =
     (let t = \<lparr>t_w = None, t_filename = filepath_Abs filename w, t_backupCount = 0,
               t_interval = 0, t_when = day, t_rotatorAt = 0, t_extRE = dayRE\<rparr>
      in case TimedRotatingFile_SetInterval 1 (TimedRotatingFile_SetBackupCount 31 t) w of
           (t1, w1) \<Rightarrow>
             (case TimedRotatingFile_open t1 w1 of
                (Some err, t2, w2) \<Rightarrow> Panics
              | (None, t2, w2) \<Rightarrow> Returns (t2, w2)))"

section \<open>Observing a run\<close>

text \<open>The system calls a run made, most recent first: what the second log adds to the first.\<close>

definition calls_since :: "world \<Rightarrow> world \<Rightarrow> (fs_op \<times> bool) list" where
  "calls_since w w' = take (length (trace w') - length (trace w)) (trace w')"

definition is_write :: "fs_op \<Rightarrow> bool" where
  "is_write op = (case op of OpWrite _ \<Rightarrow> True | _ \<Rightarrow> False)"

definition is_close :: "fs_op \<Rightarrow> bool" where
  "is_close op = (case op of OpClose _ \<Rightarrow> True | _ \<Rightarrow> False)"

definition is_remove :: "fs_op \<Rightarrow> bool" where
  "is_remove op = (case op of OpRemove _ \<Rightarrow> True | _ \<Rightarrow> False)"

definition is_rename :: "fs_op \<Rightarrow> bool" where
  "is_rename op = (case op of OpRename _ _ \<Rightarrow> True | _ \<Rightarrow> False)"

definition is_open :: "fs_op \<Rightarrow> bool" where
  "is_open op = (case op of OpOpen _ _ _ \<Rightarrow> True | _ \<Rightarrow> False)"

definition is_list :: "fs_op \<Rightarrow> bool" where
  "is_list op = (case op of OpListDir _ \<Rightarrow> True | _ \<Rightarrow> False)"

text \<open>The calls whose failure the time-based rotation does not look at.\<close>

definition swallowed :: "fs_op \<Rightarrow> bool" where
  "swallowed op = (is_remove op \<or> is_list op)"

text \<open>A world in which the environment makes no call fail.\<close>

definition never_fails :: "world \<Rightarrow> bool" where
  "never_fails w = (\<forall>n op. \<not> fails w n op)"

text \<open>
  A size-based handler is usable in a world when it holds an open handle on its own
  path and the active file is there: the state \<^verbatim>\<open>open\<close> leaves behind.
\<close>

definition usable :: "RotatingFile \<Rightarrow> world \<Rightarrow> bool" where
  "usable r w =
     (case r_w r of
        None \<Rightarrow> False
      | Some wc \<Rightarrow>
          \<not> wc_closed wc \<and> \<not> f_closed (wc_w wc) \<and> f_name (wc_w wc) = r_filename r \<and>
          content w (r_filename r) \<noteq> None)"

text \<open>A caller that writes one payload after the other and keeps every result.\<close>

fun RotatingFile_Writes ::
  "RotatingFile \<Rightarrow> string list \<Rightarrow> world
     \<Rightarrow> ((int \<times> error option) list \<times> RotatingFile \<times> world) outcome" where
  "RotatingFile_Writes r [] w = Returns ([], r, w)"
| "RotatingFile_Writes r (d # ds) w =
     (case RotatingFile_Write r d w of
        Panics \<Rightarrow> Panics
      | Returns (res, r1, w1) \<Rightarrow>
          (case RotatingFile_Writes r1 ds w1 of
             Panics \<Rightarrow> Panics
           | Returns (rs, r2, w2) \<Rightarrow> Returns (res # rs, r2, w2)))"

fun TimedRotatingFile_Writes ::
  "TimedRotatingFile \<Rightarrow> string list \<Rightarrow> world
     \<Rightarrow> ((int \<times> error option) list \<times> TimedRotatingFile \<times> world) outcome" where
  "TimedRotatingFile_Writes t [] w = Returns ([], t, w)"
| "TimedRotatingFile_Writes t (d # ds) w =
     (case TimedRotatingFile_Write t d w of
        Panics \<Rightarrow> Panics
      | Returns (res, t1, w1) \<Rightarrow>
          (case TimedRotatingFile_Writes t1 ds w1 of
             Panics \<Rightarrow> Panics
           | Returns (rs, t2, w2) \<Rightarrow> Returns (res # rs, t2, w2)))"

subsection \<open>How failures show in the log\<close>

text \<open>
  \<open>reported ign err new\<close>: of the calls \<open>new\<close> (most recent first), the one whose failure
  \<open>err\<close> reports is the last call made, and every other failed call is of a kind in
  \<open>ign\<close>.
\<close>

definition reported :: "(fs_op \<Rightarrow> bool) \<Rightarrow> error option \<Rightarrow> (fs_op \<times> bool) list \<Rightarrow> bool" where
  "reported ign err new =
     (case err of
        Some (FsFailure op) \<Rightarrow>
          (\<exists>rest. new = (op, True) # rest \<and> (\<forall>x\<in>set rest. snd x \<longrightarrow> ign (fst x)))
      | _ \<Rightarrow> (\<forall>x\<in>set new. snd x \<longrightarrow> ign (fst x)))"

text \<open>An error that is the failure of a system call other than a close.\<close>

definition rotation_failure :: "error \<Rightarrow> bool" where
  "rotation_failure e = (case e of FsFailure op \<Rightarrow> \<not> is_close op | _ \<Rightarrow> False)"

definition no_writes :: "(fs_op \<times> bool) list \<Rightarrow> bool" where
  "no_writes new = (\<forall>x\<in>set new. \<not> is_write (fst x))"

text \<open>Two worlds that read the same clock, the same number of times, in the same zone.\<close>

definition same_time :: "world \<Rightarrow> world \<Rightarrow> bool" where
  "same_time w w' = (clock w' = clock w \<and> ticks w' = ticks w \<and> zone w' = zone w)"

subsection \<open>Worlds and handlers to run the code on\<close>

text \<open>
  A world with the given files in which no call fails, the clock starts at
  2023-11-14 22:13:20 UTC and gains a second with every reading, and local time is UTC.
\<close>

definition quiet_world :: "(string \<times> string) list \<Rightarrow> world" where
  "quiet_world fs =
     \<lparr>files = fs, trace = [], fails = (\<lambda>_ _. False), clock = (\<lambda>n. 1700000000 + int n),
      ticks = 0, zone = (\<lambda>_. 0), cwd = ''/var/log'', filePerm = FILE_PERM\<rparr>"

text \<open>The same world, but every call of a kind in \<open>bad\<close> fails.\<close>

definition failing_world :: "(fs_op \<Rightarrow> bool) \<Rightarrow> (string \<times> string) list \<Rightarrow> world" where
  "failing_world bad fs = (quiet_world fs)\<lparr>fails := (\<lambda>_. bad)\<rparr>"

text \<open>A size-based handler over \<^verbatim>\<open>app.log\<close>, as \<^verbatim>\<open>open\<close> builds it.\<close>

definition app_log :: "int \<Rightarrow> int \<Rightarrow> int \<Rightarrow> RotatingFile" where
  "app_log maxSize backupCount nbytes =
     \<lparr>r_w = Some (NewWriteCloser \<lparr>f_name = ''app.log'', f_closed = False\<rparr>),
      r_filename = ''app.log'', r_maxSize = maxSize, r_backupCount = backupCount,
      r_nbytes = nbytes\<rparr>"

text \<open>
  A time-based handler over \<^verbatim>\<open>/var/log/app.log\<close> with an open handle, rotating every day
  and due at the given instant.
\<close>

definition app_timed :: "int \<Rightarrow> TimedRotatingFile" where
  "app_timed rotatorAt =
     \<lparr>t_w = Some \<lparr>f_name = ''/var/log/app.log'', f_closed = False\<rparr>,
      t_filename = ''/var/log/app.log'', t_backupCount = 1, t_interval = 86400,
      t_when = day, t_rotatorAt = rotatorAt, t_extRE = dayRE\<rparr>"

section \<open>Facts about the environment\<close>

lemma calls_since_append: "trace w' = new @ trace w \<Longrightarrow> calls_since w w' = new"
  by (simp add: calls_since_def)

lemma reported_Nil: "reported ign None []"
  by (simp add: reported_def)

lemma reported_append:
  "reported ign None new1 \<Longrightarrow> reported ign err new2 \<Longrightarrow> reported ign err (new2 @ new1)"
  by (auto simp: reported_def split: option.splits error.splits)

lemma reported_mono:
  "reported ign err new \<Longrightarrow> (\<And>op. ign op \<Longrightarrow> ign' op) \<Longrightarrow> reported ign' err new"
  by (auto simp: reported_def split: option.splits error.splits)

lemma reported_hd:
  "reported ign err new \<Longrightarrow> (op, True) \<in> set new \<Longrightarrow> \<not> ign op \<Longrightarrow>
     err = Some (FsFailure op) \<and> hd new = (op, True)"
  by (fastforce simp: reported_def split: option.splits error.splits)

lemma content_trace_update [simp]: "content (w\<lparr>trace := t\<rparr>) = content w"
  by (simp add: content_def fun_eq_iff)

lemma os_Remove_facts:
  "os_Remove name w = (err, w') \<Longrightarrow>
     trace w' = [(OpRemove name, err \<noteq> None)] @ trace w \<and>
     (err = None \<or> err = Some (FsFailure (OpRemove name))) \<and>
     content w' = (if err = None then (content w)(name := None) else content w)"
  by (auto simp: os_Remove_def sys_call_def Let_def content_def delete_conv' fun_eq_iff split: if_splits)

lemma os_Rename_facts:
  "os_Rename old new w = (err, w') \<Longrightarrow>
     trace w' = [(OpRename old new, err \<noteq> None)] @ trace w \<and>
     (err = None \<or> err = Some (FsFailure (OpRename old new))) \<and>
     content w' = (if err = None \<and> old \<noteq> new then (content w)(old := None, new := content w old) else content w)"
  by (auto simp: os_Rename_def sys_call_def Let_def content_def update_conv' delete_conv' fun_eq_iff split: if_splits option.splits)

lemma os_OpenFile_facts:
  "os_OpenFile name flag perm w = (res, w') \<Longrightarrow>
     trace w' = [(OpOpen name flag perm, res = Inl (FsFailure (OpOpen name flag perm)))] @ trace w \<and>
     (res = Inl (FsFailure (OpOpen name flag perm)) \<and> content w' = content w \<or>
      res = Inr \<lparr>f_name = name, f_closed = False\<rparr> \<and>
      content w' = (content w)(name := Some (case content w name of None \<Rightarrow> [] | Some c \<Rightarrow> c)))"
  by (auto simp: os_OpenFile_def sys_call_def Let_def content_def fun_eq_iff map_add_def split: if_splits option.splits)

lemma os_File_Stat_facts:
  "os_File_Stat f w = (res, w') \<Longrightarrow> \<not> f_closed f \<Longrightarrow>
     trace w' = [(OpStat (f_name f), res = Inl (FsFailure (OpStat (f_name f))))] @ trace w \<and>
     content w' = content w \<and>
     (res = Inl (FsFailure (OpStat (f_name f))) \<or>
      res = Inr (case content w (f_name f) of None \<Rightarrow> 0 | Some c \<Rightarrow> int (length c)))"
  by (auto simp: os_File_Stat_def sys_call_def Let_def split: if_splits option.splits)

lemma os_File_Write_facts:
  "os_File_Write f data w = ((n, err), w') \<Longrightarrow>
     (if f_closed f then err = Some ErrClosed \<and> n = 0 \<and> w' = w
      else trace w' = [(OpWrite (f_name f), err \<noteq> None)] @ trace w \<and>
        (err = Some (FsFailure (OpWrite (f_name f))) \<and> n = 0 \<and> files w' = files w \<or>
         err = None \<and> n = int (length data) \<and>
         files w' = (case content w (f_name f) of None \<Rightarrow> files w
                   | Some c \<Rightarrow> AList.update (f_name f) (c @ data) (files w))))"
  by (auto simp: os_File_Write_def sys_call_def Let_def split: if_splits option.splits)

lemma os_File_Close_facts:
  "os_File_Close f w = (err, f', w') \<Longrightarrow>
     files w' = files w \<and>
     (if f_closed f then err = Some ErrClosed \<and> w' = w \<and> f' = f
      else trace w' = [(OpClose (f_name f), err \<noteq> None)] @ trace w \<and> f' = f\<lparr>f_closed := True\<rparr> \<and>
        (err = None \<or> err = Some (FsFailure (OpClose (f_name f)))))"
  by (auto simp: os_File_Close_def sys_call_def Let_def split: if_splits option.splits)

lemma no_writes_simps [simp]:
  "no_writes []" "no_writes (x # xs) = (\<not> is_write (fst x) \<and> no_writes xs)"
  "no_writes (xs @ ys) = (no_writes xs \<and> no_writes ys)"
  by (auto simp: no_writes_def)

lemma Sprintf_neq [simp]:
  "Sprintf_s_d name i \<noteq> name" "name \<noteq> Sprintf_s_d name i"
  "name @ ''.1'' \<noteq> name" "name \<noteq> name @ ''.1''"
  by (simp_all add: Sprintf_s_d_def)

lemma rollover_shift_facts:
  "rollover_shift name is w = (err, w') \<Longrightarrow>
     \<exists>new. trace w' = new @ trace w \<and> reported (\<lambda>_. False) err new \<and> no_writes new \<and>
           content w' name = content w name"
proof (induction "is" arbitrary: w err w')
  case Nil
  then show ?case by (simp add: reported_Nil)
next
  case (Cons i rest)
  let ?sfn = "Sprintf_s_d name i" and ?dfn = "Sprintf_s_d name (int64 (i + 1))"
  show ?case
  proof (cases "file_IsExist ?sfn w \<and> file_IsExist ?dfn w")
    case False
    then have "rollover_shift name rest w = (err, w')"
      using Cons.prems by (auto simp: Let_def split: if_splits)
    then show ?thesis by (rule Cons.IH)
  next
    case True
    obtain e1 w1 where rm: "os_Remove ?dfn w = (e1, w1)" by (cases "os_Remove ?dfn w")
    note f1 = os_Remove_facts [OF rm]
    show ?thesis
    proof (cases e1)
      case (Some e)
      then have "err = e1" "w' = w1" using Cons.prems True rm by (auto simp: Let_def)
      with f1 Some show ?thesis
        by (auto simp: is_write_def reported_def)
    next
      case None
      obtain e2 w2 where rn: "os_Rename ?sfn ?dfn w1 = (e2, w2)" by (cases "os_Rename ?sfn ?dfn w1")
      note f2 = os_Rename_facts [OF rn]
      show ?thesis
      proof (cases e2)
        case (Some e)
        then have "err = e2" "w' = w2" using Cons.prems True rm rn None by (auto simp: Let_def)
        then show ?thesis using f1 f2 Some None
          by (auto simp: is_write_def reported_def)
      next
        case N2: None
        then have rec: "rollover_shift name rest w2 = (err, w')"
          using Cons.prems True rm rn None by (auto simp: Let_def)
        from Cons.IH [OF rec]
        obtain new where new: "trace w' = new @ trace w2" "reported (\<lambda>_. False) err new" "no_writes new"
           "content w' name = content w2 name" by auto
        have "reported (\<lambda>_. False) err (new @ [(OpRename ?sfn ?dfn, False), (OpRemove ?dfn, False)])"
          by (rule reported_append [OF _ new(2)]) (simp add: reported_def)
        then show ?thesis using new f1 f2 None N2
          by (auto simp: is_write_def)
      qed
    qed
  qed
qed

lemma rollover_retire_facts:
  "rollover_retire name w = (err, w') \<Longrightarrow>
     \<exists>new. trace w' = new @ trace w \<and> reported (\<lambda>_. False) err new \<and> no_writes new \<and>
           (err = None \<longrightarrow> content w' name = None)"
proof -
  assume a: "rollover_retire name w = (err, w')"
  let ?dfn = "name @ ''.1''"
  obtain e1 w1 where rm: "(if file_IsExist ?dfn w then os_Remove ?dfn w else (None, w)) = (e1, w1)"
    by (cases "if file_IsExist ?dfn w then os_Remove ?dfn w else (None, w)")
  have f1: "\<exists>new. trace w1 = new @ trace w \<and> reported (\<lambda>_. False) e1 new \<and> no_writes new \<and>
       content w1 name = content w name"
    using rm os_Remove_facts [of ?dfn w e1 w1]
    by (auto simp: reported_def is_write_def split: if_splits)
  show ?thesis
  proof (cases e1)
    case (Some e)
    then have "err = e1" "w' = w1" using a rm by (auto simp: rollover_retire_def Let_def)
    with f1 Some show ?thesis by auto
  next
    case None
    then have b: "(if file_IsExist name w1 then os_Rename name ?dfn w1 else (None, w1)) = (err, w')"
      using a rm by (auto simp: rollover_retire_def Let_def)
    from f1 obtain new1 where n1: "trace w1 = new1 @ trace w" "reported (\<lambda>_. False) None new1" "no_writes new1"
      using None by auto
    have "\<exists>new. trace w' = new @ trace w1 \<and> reported (\<lambda>_. False) err new \<and> no_writes new \<and>
           (err = None \<longrightarrow> content w' name = None)"
      using b os_Rename_facts [of name ?dfn w1 err w']
      by (auto simp: reported_def is_write_def file_IsExist_def split: if_splits)
    then obtain new2 where n2: "trace w' = new2 @ trace w1" "reported (\<lambda>_. False) err new2" "no_writes new2"
           "err = None \<longrightarrow> content w' name = None" by auto
    from n1 n2 reported_append [OF n1(2) n2(2)] show ?thesis by auto
  qed
qed

lemma RotatingFile_open_facts:
  "RotatingFile_open r w = (err, r', w') \<Longrightarrow>
     \<exists>new. trace w' = new @ trace w \<and> reported (\<lambda>_. False) err new \<and> no_writes new \<and>
       (\<forall>p. p \<noteq> r_filename r \<longrightarrow> content w' p = content w p) \<and>
       (case err of
          Some e \<Rightarrow> r' = r
        | None \<Rightarrow>
            (let c = (case content w (r_filename r) of None \<Rightarrow> [] | Some c \<Rightarrow> c)
             in r' = r\<lparr>r_nbytes := int (length c),
                       r_w := Some (NewWriteCloser \<lparr>f_name = r_filename r, f_closed = False\<rparr>)\<rparr> \<and>
                content w' (r_filename r) = Some c \<and>
                hd new = (OpStat (r_filename r), False)))"
proof -
  assume a: "RotatingFile_open r w = (err, r', w')"
  obtain res w1 where op: "os_OpenFile (r_filename r) FILE_MODE FILE_PERM w = (res, w1)"
    by (cases "os_OpenFile (r_filename r) FILE_MODE FILE_PERM w")
  note f1 = os_OpenFile_facts [OF op]
  show ?thesis
  proof (cases res)
    case (Inl e)
    then have "err = Some e" "r' = r" "w' = w1" using a op by (auto simp: RotatingFile_open_def)
    with f1 Inl show ?thesis by (auto simp: reported_def is_write_def)
  next
    case (Inr fl)
    then have fl: "fl = \<lparr>f_name = r_filename r, f_closed = False\<rparr>" using f1 by auto
    obtain res2 w2 where st: "os_File_Stat fl w1 = (res2, w2)" by (cases "os_File_Stat fl w1")
    have f2: "trace w2 = [(OpStat (r_filename r), res2 = Inl (FsFailure (OpStat (r_filename r))))] @ trace w1 \<and>
     content w2 = content w1 \<and>
     (res2 = Inl (FsFailure (OpStat (r_filename r))) \<or>
      res2 = Inr (case content w1 (r_filename r) of None \<Rightarrow> 0 | Some c \<Rightarrow> int (length c)))"
      using os_File_Stat_facts [OF st] fl by simp
    show ?thesis
    proof (cases res2)
      case (Inl e)
      then have "err = Some e" "r' = r" "w' = w2" using a op st Inr by (auto simp: RotatingFile_open_def)
      with f1 f2 Inl Inr show ?thesis by (auto simp: reported_def is_write_def)
    next
      case Inr2: (Inr sz)
      then have "err = None" "r' = r\<lparr>r_nbytes := sz, r_w := Some (NewWriteCloser fl)\<rparr>" "w' = w2"
        using a op st Inr by (auto simp: RotatingFile_open_def)
      with f1 f2 Inr Inr2 fl show ?thesis
        by (auto simp: reported_def is_write_def Let_def split: option.splits)
    qed
  qed
qed


lemma reported_ignored: "\<forall>x\<in>set new. ign (fst x) \<Longrightarrow> reported ign None new"
  by (simp add: reported_def)

lemma RotatingFile_close_facts:
  "RotatingFile_close r w = (e, r1, w1) \<Longrightarrow>
     r1 = r\<lparr>r_w := None\<rparr> \<and> files w1 = files w \<and>
     (\<exists>new. trace w1 = new @ trace w \<and> (\<forall>x\<in>set new. is_close (fst x)) \<and>
        (usable r w \<longrightarrow> new = [(OpClose (r_filename r), e \<noteq> None)]))"
proof (cases "r_w r")
  case None
  then show ?thesis if "RotatingFile_close r w = (e, r1, w1)"
    using that by (auto simp: RotatingFile_close_def usable_def)
next
  case (Some wc)
  assume a: "RotatingFile_close r w = (e, r1, w1)"
  obtain err f' w' where c: "os_File_Close (wc_w wc) w = (err, f', w')"
    by (cases "os_File_Close (wc_w wc) w")
  from a c Some have "e = err" "r1 = r\<lparr>r_w := None\<rparr>" "w1 = w'"
    by (auto simp: RotatingFile_close_def WriteCloser_Close_def)
  with os_File_Close_facts [OF c] Some show ?thesis
    by (auto simp: usable_def is_close_def split: if_splits)
qed

lemma RotatingFile_doRollover_facts:
  assumes "RotatingFile_doRollover r w = (err, r', w')"
  shows "\<exists>new. trace w' = new @ trace w \<and> reported is_close err new \<and> no_writes new \<and>
      (usable r w \<longrightarrow> last new = (OpClose (r_filename r), snd (last new)) \<and> new \<noteq> []) \<and>
      (err = None \<longrightarrow>
         (\<exists>c. r' = r\<lparr>r_nbytes := int (length c),
                     r_w := Some (NewWriteCloser \<lparr>f_name = r_filename r, f_closed = False\<rparr>)\<rparr> \<and>
              content w' (r_filename r) = Some c \<and>
              (r_backupCount r > 0 \<longrightarrow> c = []) \<and>
              (\<not> r_backupCount r > 0 \<longrightarrow> usable r w \<longrightarrow> content w (r_filename r) = Some c)))"
proof -
  let ?fn = "r_filename r"
  obtain e0 r1 w1 where cl: "RotatingFile_close r w = (e0, r1, w1)"
    by (cases "RotatingFile_close r w") auto
  from RotatingFile_close_facts [OF cl] obtain new0 where
    r1: "r1 = r\<lparr>r_w := None\<rparr>" and fw1: "files w1 = files w" and
    n0: "trace w1 = new0 @ trace w" "\<forall>x\<in>set new0. is_close (fst x)"
        "usable r w \<longrightarrow> new0 = [(OpClose ?fn, e0 \<noteq> None)]"
    by auto
  have c1: "content w1 = content w" using fw1 by (simp add: content_def fun_eq_iff)
  have rep0: "reported is_close None new0" using n0(2) by (rule reported_ignored)
  have nw0: "no_writes new0" using n0(2) by (auto simp: no_writes_def is_close_def is_write_def split: fs_op.splits)
  have last0: "usable r w \<longrightarrow> (\<forall>xs. last (xs @ new0) = (OpClose ?fn, snd (last (xs @ new0))) \<and> xs @ new0 \<noteq> [])"
    using n0(3) by auto
  have fin: "?thesis"
    if op: "RotatingFile_open r1 w2 = (err, r', w')"
      and n2: "trace w2 = new2 @ trace w1" "reported (\<lambda>_. False) None new2" "no_writes new2"
      and c2: "if r_backupCount r > 0 then content w2 ?fn = None else content w2 = content w"
    for w2 new2
  proof -
    from RotatingFile_open_facts [OF op] r1 obtain new3 where
      n3: "trace w' = new3 @ trace w2" "reported (\<lambda>_. False) err new3" "no_writes new3"
      and res: "case err of
          Some e \<Rightarrow> r' = r1
        | None \<Rightarrow>
            (let c = (case content w2 ?fn of None \<Rightarrow> [] | Some c \<Rightarrow> c)
             in r' = r1\<lparr>r_nbytes := int (length c),
                       r_w := Some (NewWriteCloser \<lparr>f_name = ?fn, f_closed = False\<rparr>)\<rparr> \<and>
                content w' ?fn = Some c)"
      by (auto split: option.splits simp: Let_def)
    have "reported (\<lambda>_. False) err (new3 @ new2)" by (rule reported_append [OF n2(2) n3(2)])
    then have "reported is_close err (new3 @ new2)" by (rule reported_mono) simp
    with rep0 have rep: "reported is_close err ((new3 @ new2) @ new0)" by (rule reported_append)
    have tr: "trace w' = ((new3 @ new2) @ new0) @ trace w" using n0 n2 n3 by simp
    have nw: "no_writes ((new3 @ new2) @ new0)" using nw0 n2 n3 by simp
    have "err = None \<longrightarrow>
         (\<exists>c. r' = r\<lparr>r_nbytes := int (length c),
                     r_w := Some (NewWriteCloser \<lparr>f_name = r_filename r, f_closed = False\<rparr>)\<rparr> \<and>
              content w' (r_filename r) = Some c \<and>
              (r_backupCount r > 0 \<longrightarrow> c = []) \<and>
              (\<not> r_backupCount r > 0 \<longrightarrow> usable r w \<longrightarrow> content w (r_filename r) = Some c))"
      using res c2 r1 by (auto simp: Let_def usable_def split: option.splits if_splits)
    with tr rep nw last0 show ?thesis by blast
  qed
  show ?thesis
  proof (cases "r_backupCount r > 0")
    case False
    then have "RotatingFile_open r1 w1 = (err, r', w')"
      using assms cl r1 by (auto simp: RotatingFile_doRollover_def)
    from fin [OF this, of "[]"] False c1 show ?thesis by (simp add: reported_Nil)
  next
    case True
    obtain e2 w2 where sh: "rollover_shift ?fn (function_Range (int64 (r_backupCount r - 1)) 0 (- 1)) w1 = (e2, w2)"
      by (cases "rollover_shift ?fn (function_Range (int64 (r_backupCount r - 1)) 0 (- 1)) w1")
    from rollover_shift_facts [OF sh] obtain new2 where
      n2: "trace w2 = new2 @ trace w1" "reported (\<lambda>_. False) e2 new2" "no_writes new2" by auto
    show ?thesis
    proof (cases e2)
      case (Some e)
      then have "err = e2" "r' = r1" "w' = w2"
        using assms cl r1 sh True by (auto simp: RotatingFile_doRollover_def)
      moreover have "reported is_close e2 (new2 @ new0)"
        by (rule reported_append [OF rep0]) (rule reported_mono [OF n2(2)], simp)
      ultimately show ?thesis using n0 n2 nw0 Some last0 by auto
    next
      case None
      obtain e3 w3 where rt: "rollover_retire ?fn w2 = (e3, w3)" by (cases "rollover_retire ?fn w2")
      from rollover_retire_facts [OF rt] obtain new3 where
        n3: "trace w3 = new3 @ trace w2" "reported (\<lambda>_. False) e3 new3" "no_writes new3"
            "e3 = None \<longrightarrow> content w3 ?fn = None" by auto
      have rep23: "reported (\<lambda>_. False) e3 (new3 @ new2)"
        using n2(2) n3(2) None by (auto intro: reported_append)
      show ?thesis
      proof (cases e3)
        case (Some e)
        then have "err = e3" "r' = r1" "w' = w3"
          using assms cl r1 sh rt True None by (auto simp: RotatingFile_doRollover_def)
        moreover have "reported is_close e3 ((new3 @ new2) @ new0)"
          by (rule reported_append [OF rep0]) (rule reported_mono [OF rep23], simp)
        moreover have "trace w3 = ((new3 @ new2) @ new0) @ trace w" using n0 n2 n3 by simp
        moreover have "no_writes ((new3 @ new2) @ new0)" using nw0 n2 n3 by simp
        ultimately show ?thesis using Some last0 by blast
      next
        case N3: None
        then have op: "RotatingFile_open r1 w3 = (err, r', w')"
          using assms cl r1 sh rt True None by (auto simp: RotatingFile_doRollover_def)
        show ?thesis
          by (rule fin [OF op, of "new3 @ new2"]) (use n2 n3 rep23 N3 True in auto)
      qed
    qed
  qed
qed


lemma int64_id: "- (2 ^ 63) \<le> x \<Longrightarrow> x < 2 ^ 63 \<Longrightarrow> int64 x = x"
  by (simp add: int64_def mod_pos_pos_trivial)

lemma no_writes_filter: "no_writes xs \<Longrightarrow> filter (\<lambda>x. is_write (fst x)) xs = []"
  by (auto simp: no_writes_def filter_empty_conv)

lemma RotatingFile_Write_reported:
  assumes "RotatingFile_Write r data w = Returns ((n, err), r', w')"
  shows "\<exists>new. trace w' = new @ trace w \<and> reported is_close err new"
proof (cases "case r_w r of None \<Rightarrow> True | Some wc \<Rightarrow> WriteCloser_Closed wc")
  case True
  then have "err = Some ErrFileNotOpen" "w' = w"
    using assms by (auto simp: RotatingFile_Write_def)
  then show ?thesis by (simp add: reported_def)
next
  case False
  let ?due = "int64 (r_nbytes r + int (length data)) > r_maxSize r"
  obtain e1 r1 w1 where ro: "(if ?due then RotatingFile_doRollover r w else (None, r, w)) = (e1, r1, w1)"
    by (cases "if ?due then RotatingFile_doRollover r w else (None, r, w)") auto
  have f1: "\<exists>new. trace w1 = new @ trace w \<and> reported is_close e1 new"
  proof (cases ?due)
    case True
    with ro RotatingFile_doRollover_facts [of r w e1 r1 w1] show ?thesis by auto
  next
    case False
    with ro show ?thesis by (auto simp: reported_Nil)
  qed
  then obtain new1 where n1: "trace w1 = new1 @ trace w" "reported is_close e1 new1" by auto
  show ?thesis
  proof (cases e1)
    case (Some e)
    then have "err = e1" "w' = w1" using assms False ro by (auto simp: RotatingFile_Write_def)
    with n1 show ?thesis by auto
  next
    case None
    then obtain wc where wc: "r_w r1 = Some wc"
      and wr: "os_File_Write (wc_w wc) data w1 = ((n, err), w')"
      using assms False ro
      by (auto simp: RotatingFile_Write_def WriteCloser_Write_def
            split: option.splits outcome.splits prod.splits)
    have "\<exists>new. trace w' = new @ trace w1 \<and> reported is_close err new"
      using os_File_Write_facts [OF wr] by (auto simp: reported_def split: if_splits)
    then obtain new2 where "trace w' = new2 @ trace w1" "reported is_close err new2" by auto
    with n1 None reported_append [of is_close new1 err new2] show ?thesis by auto
  qed
qed

section \<open>Runs in which nothing fails\<close>

text \<open>
  Two numerals of different numbers differ, so the slots \<open>i\<close> and \<open>i + 1\<close> of the ladder
  are different files.
\<close>

lemma digit_val_char: "0 \<le> d \<Longrightarrow> d < 10 \<Longrightarrow> digit_val (digit_char d) = d"
proof -
  assume "0 \<le> d" "d < 10"
  then have "d = 0 \<or> d = 1 \<or> d = 2 \<or> d = 3 \<or> d = 4 \<or> d = 5 \<or> d = 6 \<or> d = 7 \<or> d = 8 \<or> d = 9"
    by arith
  then show ?thesis by (auto simp: digit_val_def digit_char_def)
qed

lemma digit_char_not_minus: "digit_char d \<noteq> CHR ''-''" "CHR ''-'' \<noteq> digit_char d"
  by (simp_all add: digit_char_def)

lemma number_of_digits: "0 \<le> n \<Longrightarrow> number_of (digits n) = n"
proof (induction n rule: digits.induct)
  case (1 n)
  show ?case
  proof (cases "n < 10")
    case True
    with 1 show ?thesis by (simp add: digits.simps [of n] number_of_def digit_val_char)
  next
    case False
    with 1 have "number_of (digits (n div 10)) = n div 10" by simp
    moreover have "digit_val (digit_char (n mod 10)) = n mod 10" by (simp add: digit_val_char)
    ultimately show ?thesis using False by (simp add: digits.simps [of n] number_of_def)
  qed
qed

lemma digits_no_minus: "CHR ''-'' \<notin> set (digits n)"
proof (induction n rule: digits.induct)
  case (1 n)
  then show ?case by (cases "n < 10") (simp_all add: digits.simps [of n] digit_char_not_minus)
qed

lemma itoa_inj: "itoa i = itoa j \<Longrightarrow> i = j"
proof -
  assume a: "itoa i = itoa j"
  have m: "CHR ''-'' # xs \<noteq> digits n" for xs n
    using digits_no_minus [of n] by (metis list.set_intros(1))
  consider "i < 0" "j < 0" | "i < 0" "\<not> j < 0" | "\<not> i < 0" "j < 0" | "\<not> i < 0" "\<not> j < 0" by blast
  then show ?thesis
  proof cases
    case 1
    with a have "digits (- i) = digits (- j)" by (simp add: itoa_def)
    then have "number_of (digits (- i)) = number_of (digits (- j))" by simp
    with 1 show ?thesis by (simp add: number_of_digits)
  next
    case 2
    with a m show ?thesis by (simp add: itoa_def)
  next
    case 3
    with a m [of "digits (- j)" i] show ?thesis by (simp add: itoa_def)
  next
    case 4
    with a have "number_of (digits i) = number_of (digits j)" by (simp add: itoa_def)
    with 4 show ?thesis by (simp add: number_of_digits)
  qed
qed

lemma int64_succ_neq: "int64 (i + 1) \<noteq> i"
proof
  assume a: "int64 (i + 1) = i"
  define y where "y = i + 2 ^ 63"
  define m :: int where "m = 2 ^ 64"
  have m: "0 < m" by (simp add: m_def)
  from a have e: "(y + 1) mod m = y" by (simp add: int64_def y_def m_def algebra_simps)
  then have "0 \<le> y" "y < m" using m by (metis pos_mod_sign, metis pos_mod_bound)
  show False
  proof (cases "y + 1 < m")
    case True
    with \<open>0 \<le> y\<close> have "(y + 1) mod m = y + 1" by (simp add: mod_pos_pos_trivial)
    with e show False by simp
  next
    case False
    with \<open>y < m\<close> have "y + 1 = m" by simp
    then have "(y + 1) mod m = 0" by simp
    with e \<open>y + 1 = m\<close> show False by (simp add: m_def)
  qed
qed

lemma Sprintf_succ_neq: "Sprintf_s_d name i \<noteq> Sprintf_s_d name (int64 (i + 1))"
  using itoa_inj [of i "int64 (i + 1)"] int64_succ_neq [of i] by (auto simp: Sprintf_s_d_def)

lemma os_Remove_quiet:
  "os_Remove name w = (err, w') \<Longrightarrow>
     fails w' = fails w \<and> (never_fails w \<longrightarrow> content w name \<noteq> None \<longrightarrow> err = None) \<and>
     (\<forall>e. err = Some e \<longrightarrow> rotation_failure e)"
  by (auto simp: os_Remove_def sys_call_def Let_def never_fails_def rotation_failure_def is_close_def
        split: if_splits)

lemma os_Rename_quiet:
  "os_Rename old new w = (err, w') \<Longrightarrow>
     fails w' = fails w \<and> (never_fails w \<longrightarrow> content w old \<noteq> None \<longrightarrow> err = None) \<and>
     (\<forall>e. err = Some e \<longrightarrow> rotation_failure e)"
  by (auto simp: os_Rename_def sys_call_def Let_def never_fails_def rotation_failure_def is_close_def
        split: if_splits option.splits)

lemma os_OpenFile_quiet:
  "os_OpenFile name flag perm w = (res, w') \<Longrightarrow>
     fails w' = fails w \<and> (never_fails w \<longrightarrow> res = Inr \<lparr>f_name = name, f_closed = False\<rparr>) \<and>
     (\<forall>e. res = Inl e \<longrightarrow> rotation_failure e)"
  by (auto simp: os_OpenFile_def sys_call_def Let_def never_fails_def rotation_failure_def is_close_def
        split: if_splits option.splits)

lemma os_File_Stat_quiet:
  "os_File_Stat f w = (res, w') \<Longrightarrow> \<not> f_closed f \<Longrightarrow>
     fails w' = fails w \<and> (never_fails w \<longrightarrow> (\<exists>sz. res = Inr sz)) \<and>
     (\<forall>e. res = Inl e \<longrightarrow> rotation_failure e)"
  by (auto simp: os_File_Stat_def sys_call_def Let_def never_fails_def rotation_failure_def is_close_def
        split: if_splits option.splits)

lemma os_File_Write_quiet:
  "os_File_Write f data w = ((n, err), w') \<Longrightarrow> \<not> f_closed f \<Longrightarrow>
     fails w' = fails w \<and> (never_fails w \<longrightarrow> err = None) \<and>
     (\<forall>e. err = Some e \<longrightarrow> rotation_failure e) \<and>
     (\<forall>p. p \<noteq> f_name f \<longrightarrow> content w' p = content w p) \<and>
     (content w (f_name f) \<noteq> None \<longrightarrow> content w' (f_name f) \<noteq> None)"
  by (auto simp: os_File_Write_def sys_call_def Let_def never_fails_def rotation_failure_def is_close_def
        content_def update_conv'
        split: if_splits option.splits)

lemma os_File_Close_quiet: "os_File_Close f w = (err, f', w') \<Longrightarrow> fails w' = fails w"
  by (auto simp: os_File_Close_def sys_call_def Let_def split: if_splits)


lemma rollover_shift_quiet:
  "rollover_shift name is w = (err, w') \<Longrightarrow>
     fails w' = fails w \<and> (never_fails w \<longrightarrow> err = None) \<and>
     (\<forall>e. err = Some e \<longrightarrow> rotation_failure e)"
proof (induction "is" arbitrary: w err w')
  case Nil
  then show ?case by simp
next
  case (Cons i rest)
  let ?sfn = "Sprintf_s_d name i" and ?dfn = "Sprintf_s_d name (int64 (i + 1))"
  show ?case
  proof (cases "file_IsExist ?sfn w \<and> file_IsExist ?dfn w")
    case False
    then have "rollover_shift name rest w = (err, w')"
      using Cons.prems by (auto simp: Let_def split: if_splits)
    then show ?thesis by (rule Cons.IH)
  next
    case True
    obtain e1 w1 where rm: "os_Remove ?dfn w = (e1, w1)" by (cases "os_Remove ?dfn w")
    note f1 = os_Remove_facts [OF rm] and q1 = os_Remove_quiet [OF rm]
    have nf1: "never_fails w1 = never_fails w" using q1 by (simp add: never_fails_def)
    show ?thesis
    proof (cases e1)
      case (Some e)
      then have "err = e1" "w' = w1" using Cons.prems True rm by (auto simp: Let_def)
      with q1 Some True show ?thesis by (auto simp: file_IsExist_def)
    next
      case None
      obtain e2 w2 where rn: "os_Rename ?sfn ?dfn w1 = (e2, w2)" by (cases "os_Rename ?sfn ?dfn w1")
      note q2 = os_Rename_quiet [OF rn]
      have nf2: "never_fails w2 = never_fails w" using q1 q2 by (simp add: never_fails_def)
      have c1: "content w1 ?sfn \<noteq> None"
        using f1 None True Sprintf_succ_neq [of name i] by (simp add: file_IsExist_def)
      show ?thesis
      proof (cases e2)
        case (Some e)
        then have "err = e2" "w' = w2" using Cons.prems True rm rn None by (auto simp: Let_def)
        with q1 q2 c1 nf1 Some show ?thesis by simp
      next
        case N2: None
        then have rec: "rollover_shift name rest w2 = (err, w')"
          using Cons.prems True rm rn None by (auto simp: Let_def)
        from Cons.IH [OF rec] q1 q2 nf2 show ?thesis by simp
      qed
    qed
  qed
qed

lemma rollover_retire_quiet:
  "rollover_retire name w = (err, w') \<Longrightarrow>
     fails w' = fails w \<and> (never_fails w \<longrightarrow> err = None) \<and>
     (\<forall>e. err = Some e \<longrightarrow> rotation_failure e) \<and>
     (err = None \<longrightarrow> content w' (name @ ''.1'') = content w name)"
proof -
  assume a: "rollover_retire name w = (err, w')"
  let ?dfn = "name @ ''.1''"
  obtain e1 w1 where rm: "(if file_IsExist ?dfn w then os_Remove ?dfn w else (None, w)) = (e1, w1)"
    by (cases "if file_IsExist ?dfn w then os_Remove ?dfn w else (None, w)")
  have f1: "fails w1 = fails w \<and> (never_fails w \<longrightarrow> e1 = None) \<and>
       (\<forall>e. e1 = Some e \<longrightarrow> rotation_failure e) \<and>
       (e1 = None \<longrightarrow> content w1 name = content w name \<and> content w1 ?dfn = None)"
    using rm os_Remove_facts [of ?dfn w e1 w1] os_Remove_quiet [of ?dfn w e1 w1]
    by (auto simp: file_IsExist_def split: if_splits)
  have nf1: "never_fails w1 = never_fails w" using f1 by (simp add: never_fails_def)
  show ?thesis
  proof (cases e1)
    case (Some e)
    then have "err = e1" "w' = w1" using a rm by (auto simp: rollover_retire_def Let_def)
    with f1 Some show ?thesis by simp
  next
    case None
    then have b: "(if file_IsExist name w1 then os_Rename name ?dfn w1 else (None, w1)) = (err, w')"
      using a rm by (auto simp: rollover_retire_def Let_def)
    show ?thesis
    proof (cases "file_IsExist name w1")
      case False
      with b have "err = None" "w' = w1" by auto
      with f1 None False show ?thesis by (simp add: file_IsExist_def)
    next
      case True
      with b have rn: "os_Rename name ?dfn w1 = (err, w')" by simp
      from os_Rename_facts [OF rn] os_Rename_quiet [OF rn] f1 nf1 None True
      show ?thesis by (auto simp: file_IsExist_def)
    qed
  qed
qed

lemma RotatingFile_open_quiet:
  "RotatingFile_open r w = (err, r', w') \<Longrightarrow>
     fails w' = fails w \<and> (never_fails w \<longrightarrow> err = None) \<and>
     (\<forall>e. err = Some e \<longrightarrow> rotation_failure e)"
proof -
  assume a: "RotatingFile_open r w = (err, r', w')"
  obtain res w1 where op: "os_OpenFile (r_filename r) FILE_MODE FILE_PERM w = (res, w1)"
    by (cases "os_OpenFile (r_filename r) FILE_MODE FILE_PERM w")
  note f1 = os_OpenFile_facts [OF op] and q1 = os_OpenFile_quiet [OF op]
  have nf1: "never_fails w1 = never_fails w" using q1 by (simp add: never_fails_def)
  show ?thesis
  proof (cases res)
    case (Inl e)
    then have "err = Some e" "w' = w1" using a op by (auto simp: RotatingFile_open_def)
    with q1 Inl show ?thesis by auto
  next
    case (Inr fl)
    then have fl: "\<not> f_closed fl" using f1 by auto
    obtain res2 w2 where st: "os_File_Stat fl w1 = (res2, w2)" by (cases "os_File_Stat fl w1")
    note q2 = os_File_Stat_quiet [OF st fl]
    show ?thesis
    proof (cases res2)
      case (Inl e)
      then have "err = Some e" "w' = w2" using a op st Inr by (auto simp: RotatingFile_open_def)
      with q1 q2 nf1 Inl show ?thesis by auto
    next
      case Inr2: (Inr sz)
      then have "err = None" "w' = w2"
        using a op st Inr by (auto simp: RotatingFile_open_def)
      with q1 q2 show ?thesis by simp
    qed
  qed
qed

lemma RotatingFile_close_quiet: "RotatingFile_close r w = (e, r1, w1) \<Longrightarrow> fails w1 = fails w"
  by (auto simp: RotatingFile_close_def WriteCloser_Close_def dest: os_File_Close_quiet
        split: option.splits prod.splits)

lemma RotatingFile_doRollover_quiet:
  assumes "RotatingFile_doRollover r w = (err, r', w')"
  shows "fails w' = fails w \<and> (never_fails w \<longrightarrow> err = None) \<and>
     (\<forall>e. err = Some e \<longrightarrow> rotation_failure e) \<and>
     (err = None \<longrightarrow> 0 < r_backupCount r \<longrightarrow>
        content w' (r_filename r @ ''.1'') = content w (r_filename r))"
proof -
  let ?fn = "r_filename r"
  obtain e0 r1 w1 where cl: "RotatingFile_close r w = (e0, r1, w1)"
    by (cases "RotatingFile_close r w") auto
  from RotatingFile_close_facts [OF cl] have r1: "r1 = r\<lparr>r_w := None\<rparr>" and fw1: "files w1 = files w"
    by auto
  have c1: "content w1 = content w" using fw1 by (simp add: content_def fun_eq_iff)
  have q0: "fails w1 = fails w" using cl by (rule RotatingFile_close_quiet)
  show ?thesis
  proof (cases "r_backupCount r > 0")
    case False
    then have op: "RotatingFile_open r1 w1 = (err, r', w')"
      using assms cl r1 by (auto simp: RotatingFile_doRollover_def)
    from RotatingFile_open_quiet [OF op] q0 False show ?thesis by (simp add: never_fails_def)
  next
    case True
    obtain e2 w2 where sh: "rollover_shift ?fn (function_Range (int64 (r_backupCount r - 1)) 0 (- 1)) w1 = (e2, w2)"
      by (cases "rollover_shift ?fn (function_Range (int64 (r_backupCount r - 1)) 0 (- 1)) w1")
    note q2 = rollover_shift_quiet [OF sh]
    from rollover_shift_facts [OF sh] have c2: "content w2 ?fn = content w ?fn" using c1 by auto
    have nf2: "never_fails w2 = never_fails w" using q0 q2 by (simp add: never_fails_def)
    show ?thesis
    proof (cases e2)
      case (Some e)
      then have "err = e2" "w' = w2"
        using assms cl r1 sh True by (auto simp: RotatingFile_doRollover_def)
      with q0 q2 Some show ?thesis by (simp add: never_fails_def)
    next
      case None
      obtain e3 w3 where rt: "rollover_retire ?fn w2 = (e3, w3)" by (cases "rollover_retire ?fn w2")
      note q3 = rollover_retire_quiet [OF rt]
      have nf3: "never_fails w3 = never_fails w" using q0 q2 q3 by (simp add: never_fails_def)
      show ?thesis
      proof (cases e3)
        case (Some e)
        then have "err = e3" "w' = w3"
          using assms cl r1 sh rt True None by (auto simp: RotatingFile_doRollover_def)
        with q0 q2 q3 nf2 Some show ?thesis by simp
      next
        case N3: None
        then have op: "RotatingFile_open r1 w3 = (err, r', w')"
          using assms cl r1 sh rt True None by (auto simp: RotatingFile_doRollover_def)
        from RotatingFile_open_facts [OF op] r1
        have keep: "content w' (?fn @ ''.1'') = content w3 (?fn @ ''.1'')" by auto
        from RotatingFile_open_quiet [OF op] q0 q2 q3 nf3 N3 keep c2 show ?thesis by simp
      qed
    qed
  qed
qed

lemma RotatingFile_Write_outcome:
  assumes us: "usable r w" and W: "RotatingFile_Write r data w = Returns ((n, err), r', w')"
  shows "(never_fails w \<longrightarrow> err = None) \<and>
     (\<forall>e. err = Some e \<longrightarrow> rotation_failure e) \<and>
     (err = None \<longrightarrow>
        usable r' w' \<and>
        (r_maxSize r < int64 (r_nbytes r + int (length data)) \<longrightarrow> 0 < r_backupCount r \<longrightarrow>
           content w' (r_filename r @ ''.1'') = content w (r_filename r)))"
proof -
  let ?fn = "r_filename r"
  let ?due = "int64 (r_nbytes r + int (length data)) > r_maxSize r"
  from us obtain wc where wc: "r_w r = Some wc" "\<not> wc_closed wc" "\<not> f_closed (wc_w wc)"
    "f_name (wc_w wc) = ?fn" and ex: "content w ?fn \<noteq> None"
    by (auto simp: usable_def split: option.splits)
  obtain e1 r1 w1 where ro: "(if ?due then RotatingFile_doRollover r w else (None, r, w)) = (e1, r1, w1)"
    by (cases "if ?due then RotatingFile_doRollover r w else (None, r, w)") auto
  have f1: "fails w1 = fails w \<and> (never_fails w \<longrightarrow> e1 = None) \<and>
     (\<forall>e. e1 = Some e \<longrightarrow> rotation_failure e) \<and>
     (e1 = None \<longrightarrow> usable r1 w1 \<and> r_filename r1 = ?fn \<and>
        (?due \<longrightarrow> 0 < r_backupCount r \<longrightarrow> content w1 (?fn @ ''.1'') = content w ?fn))"
  proof (cases ?due)
    case False
    with ro us show ?thesis by auto
  next
    case True
    with ro have d: "RotatingFile_doRollover r w = (e1, r1, w1)" by simp
    from RotatingFile_doRollover_facts [OF d] have "e1 = None \<longrightarrow> usable r1 w1 \<and> r_filename r1 = ?fn"
      by (auto simp: usable_def NewWriteCloser_def)
    with RotatingFile_doRollover_quiet [OF d] show ?thesis by simp
  qed
  have nf1: "never_fails w1 = never_fails w" using f1 by (simp add: never_fails_def)
  show ?thesis
  proof (cases e1)
    case (Some e)
    then have "err = e1" using W wc ro by (auto simp: RotatingFile_Write_def WriteCloser_Closed_def)
    with f1 Some show ?thesis by simp
  next
    case None
    with f1 obtain wc1 where wc1: "r_w r1 = Some wc1" "\<not> f_closed (wc_w wc1)"
      "f_name (wc_w wc1) = ?fn" "\<not> wc_closed wc1" and ex1: "content w1 ?fn \<noteq> None" and fn1: "r_filename r1 = ?fn"
      by (auto simp: usable_def split: option.splits)
    have wr: "os_File_Write (wc_w wc1) data w1 = ((n, err), w')"
      and r': "err = None \<longrightarrow> r' = r1\<lparr>r_nbytes := int64 (r_nbytes r1 + n)\<rparr>"
      using W wc ro None wc1
      by (auto simp: RotatingFile_Write_def WriteCloser_Closed_def WriteCloser_Write_def
            split: option.splits prod.splits)
    note q = os_File_Write_quiet [OF wr wc1(2)]
    have a: "never_fails w \<longrightarrow> err = None" using q nf1 by simp
    have b: "\<forall>e. err = Some e \<longrightarrow> rotation_failure e" using q by simp
    have c: "content w' ?fn \<noteq> None" using q ex1 wc1(3) by simp
    have "usable (r1\<lparr>r_nbytes := int64 (r_nbytes r1 + n)\<rparr>) w'"
      using wc1 fn1 c by (simp add: usable_def)
    with r' have d: "err = None \<longrightarrow> usable r' w'" by simp
    have "content w' (?fn @ ''.1'') = content w1 (?fn @ ''.1'')" using q wc1(3) by simp
    with f1 None have e: "?due \<longrightarrow> 0 < r_backupCount r \<longrightarrow>
        content w' (?fn @ ''.1'') = content w ?fn" by simp
    from a b d e show ?thesis by simp
  qed
qed

section \<open>What a size-based write does\<close>

lemma RotatingFile_Write_trigger_facts:
  assumes us: "usable r w" and nb: "0 \<le> r_nbytes r"
    and rg: "r_nbytes r + int (length data) < 2 ^ 63"
  shows "\<exists>n err r' w'. RotatingFile_Write r data w = Returns ((n, err), r', w') \<and>
           ((OpClose (r_filename r) \<in> fst ` set (calls_since w w')) =
              (r_maxSize r < r_nbytes r + int (length data))) \<and>
           (r_maxSize r < int (length data) \<longrightarrow>
              OpClose (r_filename r) \<in> fst ` set (calls_since w w')) \<and>
           (err = None \<longrightarrow>
              n = int (length data) \<and>
              hd (calls_since w w') = (OpWrite (r_filename r), False) \<and>
              filter (\<lambda>x. is_write (fst x)) (calls_since w w') = [(OpWrite (r_filename r), False)] \<and>
              (\<exists>c. content w' (r_filename r) = Some (c @ data)) \<and>
              (if r_maxSize r < r_nbytes r + int (length data)
               then (0 < r_backupCount r \<longrightarrow>
                       content w' (r_filename r) = Some data \<and> r_nbytes r' = int (length data)) \<and>
                    (\<not> 0 < r_backupCount r \<longrightarrow>
                       (\<exists>c. content w (r_filename r) = Some c \<and>
                            content w' (r_filename r) = Some (c @ data) \<and>
                            r_nbytes r' = int64 (int (length c) + int (length data))))
               else (\<exists>c. content w (r_filename r) = Some c \<and>
                         files w' = AList.update (r_filename r) (c @ data) (files w)) \<and>
                    r_nbytes r' = r_nbytes r + int (length data)))"
proof -
  let ?fn = "r_filename r"
  let ?due = "r_maxSize r < r_nbytes r + int (length data)"
  from us obtain wc where wc: "r_w r = Some wc" "\<not> wc_closed wc" "\<not> f_closed (wc_w wc)"
    "f_name (wc_w wc) = ?fn" and ex: "content w ?fn \<noteq> None"
    by (auto simp: usable_def split: option.splits)
  have i64: "int64 (r_nbytes r + int (length data)) = r_nbytes r + int (length data)"
    using nb rg by (intro int64_id) auto
  have len64: "int64 (int (length data)) = int (length data)"
    using nb rg by (intro int64_id) auto
  have upd: "content w2 ?fn = Some (c @ data)"
    if "files w2 = AList.update ?fn (c @ data) (files w1)" for w1 w2 c
    using that by (simp add: content_def update_conv')
  show ?thesis
  proof (cases ?due)
    case False
    obtain n err w2 where wr: "os_File_Write (wc_w wc) data w = ((n, err), w2)"
      by (cases "os_File_Write (wc_w wc) data w") auto
    note fw = os_File_Write_facts [OF wr]
    from ex obtain c where c: "content w ?fn = Some c" by auto
    show ?thesis
    proof (cases err)
      case None
      then have W: "RotatingFile_Write r data w =
          Returns ((n, None), r\<lparr>r_nbytes := int64 (r_nbytes r + n)\<rparr>, w2)"
        using wc wr False i64
        by (simp add: RotatingFile_Write_def WriteCloser_Closed_def WriteCloser_Write_def)
      have cs: "calls_since w w2 = [(OpWrite ?fn, False)]"
        using fw wc None by (intro calls_since_append) auto
      have "n = int (length data)" "files w2 = AList.update ?fn (c @ data) (files w)"
        using fw wc None c by auto
      with W cs False c i64 nb upd [of w2 c w] show ?thesis
        by (simp add: is_write_def is_close_def)
    next
      case (Some e)
      then have W: "RotatingFile_Write r data w = Returns ((n, Some e), r, w2)"
        using wc wr False i64
        by (simp add: RotatingFile_Write_def WriteCloser_Closed_def WriteCloser_Write_def)
      have cs: "calls_since w w2 = [(OpWrite ?fn, True)]"
        using fw wc Some by (intro calls_since_append) auto
      from W cs False nb show ?thesis by simp
    qed
  next
    case True
    obtain e1 r1 w1 where ro: "RotatingFile_doRollover r w = (e1, r1, w1)"
      by (cases "RotatingFile_doRollover r w") auto
    from RotatingFile_doRollover_facts [OF ro] us obtain new1 where
      n1: "trace w1 = new1 @ trace w" "no_writes new1"
          "last new1 = (OpClose ?fn, snd (last new1))" "new1 \<noteq> []"
      and ok: "e1 = None \<longrightarrow>
         (\<exists>c. r1 = r\<lparr>r_nbytes := int (length c),
                     r_w := Some (NewWriteCloser \<lparr>f_name = ?fn, f_closed = False\<rparr>)\<rparr> \<and>
              content w1 ?fn = Some c \<and> (r_backupCount r > 0 \<longrightarrow> c = []) \<and>
              (\<not> r_backupCount r > 0 \<longrightarrow> content w ?fn = Some c))"
      by auto
    have cl1: "OpClose ?fn \<in> fst ` set new1"
      using n1(3,4) by (metis fst_conv image_eqI last_in_set)
    show ?thesis
    proof (cases e1)
      case (Some e)
      then have W: "RotatingFile_Write r data w = Returns ((0, Some e), r1, w1)"
        using wc ro True i64
        by (simp add: RotatingFile_Write_def WriteCloser_Closed_def)
      have cs: "calls_since w w1 = new1" using n1 by (intro calls_since_append)
      from W cs True cl1 show ?thesis by simp
    next
      case None
      with ok obtain c where r1: "r1 = r\<lparr>r_nbytes := int (length c),
                     r_w := Some (NewWriteCloser \<lparr>f_name = ?fn, f_closed = False\<rparr>)\<rparr>"
        and c: "content w1 ?fn = Some c" "r_backupCount r > 0 \<longrightarrow> c = []"
          "\<not> r_backupCount r > 0 \<longrightarrow> content w ?fn = Some c" by auto
      let ?f = "\<lparr>f_name = ?fn, f_closed = False\<rparr>"
      obtain n err w2 where wr: "os_File_Write ?f data w1 = ((n, err), w2)"
        by (cases "os_File_Write ?f data w1") auto
      note fw = os_File_Write_facts [OF wr]
      have cs: "calls_since w w2 = (OpWrite ?fn, err \<noteq> None) # new1"
        using fw n1 by (intro calls_since_append) auto
      have mem: "OpClose ?fn \<in> fst ` set (calls_since w w2)" using cs cl1 by auto
      show ?thesis
      proof (cases err)
        case N2: None
        then have W: "RotatingFile_Write r data w =
            Returns ((n, None), r1\<lparr>r_nbytes := int64 (r_nbytes r1 + n)\<rparr>, w2)"
          using wc wr True i64 ro None r1
          by (simp add: RotatingFile_Write_def WriteCloser_Closed_def WriteCloser_Write_def NewWriteCloser_def)
        have n: "n = int (length data)" "files w2 = AList.update ?fn (c @ data) (files w1)"
          using fw N2 c by auto
        have "content w2 ?fn = Some (c @ data)" using n(2) by (rule upd)
        moreover have "0 < r_backupCount r \<longrightarrow> r_nbytes (r1\<lparr>r_nbytes := int64 (r_nbytes r1 + n)\<rparr>) = int (length data)"
          using r1 c(2) n(1) len64 by auto
        moreover have "r_nbytes (r1\<lparr>r_nbytes := int64 (r_nbytes r1 + n)\<rparr>) =
            int64 (int (length c) + int (length data))"
          using r1 n(1) by simp
        ultimately show ?thesis
          using W cs mem True n(1) c(2,3) N2 no_writes_filter [OF n1(2)]
          by (auto simp: is_write_def)
      next
        case (Some e)
        then have W: "RotatingFile_Write r data w = Returns ((n, Some e), r1, w2)"
          using wc wr True i64 ro None r1
          by (simp add: RotatingFile_Write_def WriteCloser_Closed_def WriteCloser_Write_def NewWriteCloser_def)
        from W mem True show ?thesis by simp
      qed
    qed
  qed
qed

section \<open>Facts about the time-based handler\<close>

lemma same_time_refl [simp]: "same_time w w"
  by (simp add: same_time_def)

lemma same_time_trans: "same_time w w1 \<Longrightarrow> same_time w1 w2 \<Longrightarrow> same_time w w2"
  by (simp add: same_time_def)

lemma os_Remove_time: "os_Remove name w = (err, w') \<Longrightarrow> same_time w w'"
  by (auto simp: os_Remove_def sys_call_def Let_def same_time_def split: if_splits)

lemma os_Rename_time: "os_Rename old new w = (err, w') \<Longrightarrow> same_time w w'"
  by (auto simp: os_Rename_def sys_call_def Let_def same_time_def split: if_splits option.splits)

lemma os_OpenFile_time: "os_OpenFile name flag perm w = (res, w') \<Longrightarrow> same_time w w'"
  by (auto simp: os_OpenFile_def sys_call_def Let_def same_time_def split: if_splits option.splits)

lemma os_File_Write_time: "os_File_Write f data w = (res, w') \<Longrightarrow> same_time w w'"
  by (auto simp: os_File_Write_def sys_call_def Let_def same_time_def split: if_splits option.splits)

lemma os_File_Close_time: "os_File_Close f w = (err, f', w') \<Longrightarrow> same_time w w'"
  by (auto simp: os_File_Close_def sys_call_def Let_def same_time_def split: if_splits option.splits)

lemma remove_each_facts:
  "\<exists>new. trace (remove_each doomed w) = new @ trace w \<and> (\<forall>x\<in>set new. is_remove (fst x)) \<and>
         same_time w (remove_each doomed w)"
proof (induction doomed arbitrary: w)
  case Nil
  then show ?case by simp
next
  case (Cons p rest)
  obtain e w1 where rm: "os_Remove p w = (e, w1)" by (cases "os_Remove p w")
  from Cons.IH [of w1] obtain new where
    n: "trace (remove_each rest w1) = new @ trace w1" "\<forall>x\<in>set new. is_remove (fst x)"
       "same_time w1 (remove_each rest w1)" by auto
  have "trace (remove_each (p # rest) w) = (new @ [(OpRemove p, e \<noteq> None)]) @ trace w"
    using rm n os_Remove_facts [OF rm] by simp
  moreover have "\<forall>x\<in>set (new @ [(OpRemove p, e \<noteq> None)]). is_remove (fst x)"
    using n by (auto simp: is_remove_def)
  moreover have "same_time w (remove_each (p # rest) w)"
    using rm n os_Remove_time [OF rm] by (auto intro: same_time_trans)
  ultimately show ?case by blast
qed

lemma getFilesToDelete_facts:
  assumes "TimedRotatingFile_getFilesToDelete t w = (doomed, w')"
  shows "\<exists>new. trace w' = new @ trace w \<and> (\<forall>x\<in>set new. is_list (fst x)) \<and> same_time w w'"
proof -
  obtain dirName baseName where sp: "filepath_Split (t_filename t) = (dirName, baseName)"
    by (cases "filepath_Split (t_filename t)")
  obtain res w1 where ls: "file_ListDir dirName w = (res, w1)" by (cases "file_ListDir dirName w")
  have w1: "w1 = w\<lparr>trace := (OpListDir dirName, fails w (length (trace w)) (OpListDir dirName)) # trace w\<rparr>"
    using ls by (auto simp: file_ListDir_def sys_call_def Let_def split: if_splits)
  have "w' = w1"
    using assms sp ls
    by (cases res) (simp_all add: TimedRotatingFile_getFilesToDelete_def Let_def split: if_splits)
  with w1 show ?thesis by (simp add: same_time_def is_list_def)
qed

lemma TimedRotatingFile_Close_facts:
  "TimedRotatingFile_Close t w = Returns (err, t', w') \<Longrightarrow>
     \<exists>new. trace w' = new @ trace w \<and> reported ign err new \<and> same_time w w' \<and>
       files w' = files w \<and>
       (case err of None \<Rightarrow> t' = t\<lparr>t_w := None\<rparr>
        | Some e \<Rightarrow> (\<exists>f. t' = t\<lparr>t_w := Some f\<rparr>) \<and> (e = ErrClosed \<or> (\<exists>p. e = FsFailure (OpClose p))))"
proof -
  assume a: "TimedRotatingFile_Close t w = Returns (err, t', w')"
  then obtain f where f: "t_w t = Some f" by (auto simp: TimedRotatingFile_Close_def split: option.splits)
  obtain e f1 w1 where c: "os_File_Close f w = (e, f1, w1)" by (cases "os_File_Close f w")
  from a f c have r: "err = e" "w' = w1" "t' = (case e of None \<Rightarrow> t\<lparr>t_w := None\<rparr> | Some _ \<Rightarrow> t\<lparr>t_w := Some f1\<rparr>)"
    by (auto simp: TimedRotatingFile_Close_def split: option.splits)
  from os_File_Close_facts [OF c] os_File_Close_time [OF c] r show ?thesis
    by (cases "f_closed f") (auto simp: reported_def split: option.splits)
qed

lemma TimedRotatingFile_Close_panics: "(TimedRotatingFile_Close t w = Panics) = (t_w t = None)"
  by (auto simp: TimedRotatingFile_Close_def split: option.splits prod.splits)

lemma TimedRotatingFile_open_facts:
  "TimedRotatingFile_open t w = (err, t', w') \<Longrightarrow>
     \<exists>new. trace w' = new @ trace w \<and> reported ign err new \<and> same_time w w' \<and>
       (case err of
          None \<Rightarrow> t' = t\<lparr>t_w := Some \<lparr>f_name = t_filename t, f_closed = False\<rparr>\<rparr>
        | Some e \<Rightarrow> t' = t \<and> e = FsFailure (OpOpen (t_filename t) FILE_MODE FILE_PERM))"
proof -
  assume a: "TimedRotatingFile_open t w = (err, t', w')"
  obtain res w1 where op: "os_OpenFile (t_filename t) FILE_MODE FILE_PERM w = (res, w1)"
    by (cases "os_OpenFile (t_filename t) FILE_MODE FILE_PERM w")
  from a op os_OpenFile_facts [OF op] os_OpenFile_time [OF op] show ?thesis
    by (auto simp: TimedRotatingFile_open_def reported_def)
qed

lemma hms_eq: "(((x::int) mod 86400 div 3600) * 60 + x mod 3600 div 60) * 60 + x mod 60 = x mod 86400"
proof -
  have a: "x mod 3600 = (x mod 86400) mod 3600" by (simp add: mod_mod_cancel)
  have b: "x mod 60 = (x mod 3600) mod 60" by (simp add: mod_mod_cancel)
  define y where "y = x mod 86400"
  define z where "z = y mod 3600"
  have 1: "y = 3600 * (y div 3600) + z" unfolding z_def by simp
  have 2: "z = 60 * (z div 60) + z mod 60" by simp
  have g: "(a * 60 + b) * 60 + c = y'" if "y' = 3600 * a + z'" "z' = 60 * b + c"
    for a b c y' z' :: int
    using that by simp
  have "((y div 3600) * 60 + z div 60) * 60 + z mod 60 = y"
    by (rule g [OF 1 2])
  then show ?thesis unfolding a b y_def z_def unfolding a [symmetric] .
qed


lemma local_seconds_ticks: "local_seconds (w\<lparr>ticks := n\<rparr>) = local_seconds w"
  by (simp add: local_seconds_def fun_eq_iff)

lemma reComputeRollover_facts:
  "TimedRotatingFile_reComputeRollover t w =
     (t\<lparr>t_rotatorAt :=
          int64 (clock w (ticks w) +
                 int64 (t_interval t - int64 (local_seconds w (clock w (ticks w)) mod 86400)))\<rparr>,
      w\<lparr>ticks := Suc (ticks w)\<rparr>)"
  by (simp only: TimedRotatingFile_reComputeRollover_def time_Now_Unix_def Let_def time_Hour_def
        time_Minute_def time_Second_def prod.case local_seconds_ticks hms_eq)

lemma rotatorAt_value:
  assumes "iv = k * day" "1 \<le> k" "0 \<le> now" "now + iv < 2 ^ 63"
  shows "int64 (now + int64 (iv - int64 (x mod 86400))) = now + iv - x mod 86400"
proof -
  have x: "0 \<le> x mod 86400" "x mod 86400 < 86400" by simp_all
  have iv: "86400 \<le> iv" using assms(1,2) by (simp add: day_def)
  have 1: "int64 (x mod 86400) = x mod 86400"
    using x by (intro int64_id) auto
  have 2: "int64 (iv - x mod 86400) = iv - x mod 86400"
    using x iv assms(3,4) by (intro int64_id) auto
  have 3: "int64 (now + (iv - x mod 86400)) = now + (iv - x mod 86400)"
    using x iv assms(3,4) by (intro int64_id) auto
  show ?thesis unfolding 1 2 3 by simp
qed

lemma TimedRotatingFile_doRollover_facts:
  assumes "TimedRotatingFile_doRollover t w = Returns (err, t', w')"
  shows "\<exists>new. trace w' = new @ trace w \<and> reported swallowed err new \<and>
     clock w' = clock w \<and> zone w' = zone w \<and>
     ((\<exists>e. err = Some e \<and>
           (e = ErrClosed \<or> (\<exists>p. e = FsFailure (OpClose p)) \<or> (\<exists>p q. e = FsFailure (OpRename p q)))) \<and>
        ticks w' = ticks w \<and> t_rotatorAt t' = t_rotatorAt t
      \<or> ticks w' = Suc (ticks w) \<and>
        t_rotatorAt t' =
          int64 (clock w (ticks w) +
                 int64 (t_interval t - int64 (local_seconds w (clock w (ticks w)) mod 86400))) \<and>
        (case err of
           None \<Rightarrow> t_w t' = Some \<lparr>f_name = t_filename t, f_closed = False\<rparr>
         | Some e \<Rightarrow> t_w t' = None \<and> e = FsFailure (OpOpen (t_filename t) FILE_MODE FILE_PERM)))"
proof -
  obtain e0 t1 w1 where cl: "TimedRotatingFile_Close t w = Returns (e0, t1, w1)"
    using assms by (auto simp: TimedRotatingFile_doRollover_def split: outcome.splits)
  from TimedRotatingFile_Close_facts [OF cl, of swallowed] obtain new0 where
    n0: "trace w1 = new0 @ trace w" "reported swallowed e0 new0" "same_time w w1"
    and t1: "case e0 of None \<Rightarrow> t1 = t\<lparr>t_w := None\<rparr>
        | Some e \<Rightarrow> (\<exists>f. t1 = t\<lparr>t_w := Some f\<rparr>) \<and> (e = ErrClosed \<or> (\<exists>p. e = FsFailure (OpClose p)))"
    by auto
  show ?thesis
  proof (cases e0)
    case (Some e)
    then have "err = e0" "t' = t1" "w' = w1"
      using assms cl by (auto simp: TimedRotatingFile_doRollover_def)
    with n0 t1 Some show ?thesis by (auto simp: same_time_def)
  next
    case None
    with t1 have t1': "t1 = t\<lparr>t_w := None\<rparr>" by simp
    define dstPath where "dstPath = t_filename t1 @ ''.'' @
       time_Format (time2fmt (t_when t1)) w1 (int64 (t_rotatorAt t1 - t_interval t1))"
    define w2 where "w2 = (if file_IsExist dstPath w1 then snd (os_Remove dstPath w1) else w1)"
    have f2: "\<exists>new. trace w2 = new @ trace w1 \<and> (\<forall>x\<in>set new. is_remove (fst x)) \<and> same_time w1 w2"
    proof (cases "file_IsExist dstPath w1")
      case True
      obtain e w2' where rm: "os_Remove dstPath w1 = (e, w2')" by (cases "os_Remove dstPath w1")
      with True have "w2 = w2'" by (simp add: w2_def)
      with os_Remove_facts [OF rm] os_Remove_time [OF rm] show ?thesis
        by (auto simp: is_remove_def)
    next
      case False
      then show ?thesis by (simp add: w2_def)
    qed
    then obtain new2 where n2: "trace w2 = new2 @ trace w1"
      "\<forall>x\<in>set new2. is_remove (fst x)" "same_time w1 w2" by auto
    obtain e3 w3 where rn: "(if file_IsFile (t_filename t1) w2
              then os_Rename (t_filename t1) dstPath w2 else (None, w2)) = (e3, w3)"
      by (cases "if file_IsFile (t_filename t1) w2
              then os_Rename (t_filename t1) dstPath w2 else (None, w2)")
    have f3: "\<exists>new. trace w3 = new @ trace w2 \<and> reported swallowed e3 new \<and> same_time w2 w3 \<and>
        (e3 = None \<or> (\<exists>p q. e3 = Some (FsFailure (OpRename p q))))"
    proof (cases "file_IsFile (t_filename t1) w2")
      case True
      with rn have r: "os_Rename (t_filename t1) dstPath w2 = (e3, w3)" by simp
      from os_Rename_facts [OF r] os_Rename_time [OF r] show ?thesis
        by (auto simp: reported_def)
    next
      case False
      with rn show ?thesis by (auto simp: reported_def)
    qed
    then obtain new3 where n3: "trace w3 = new3 @ trace w2" "reported swallowed e3 new3"
      "same_time w2 w3" "e3 = None \<or> (\<exists>p q. e3 = Some (FsFailure (OpRename p q)))" by auto
    have rep02: "reported swallowed None (new2 @ new0)"
      using n0(2) n2(2) None by (auto simp: reported_def swallowed_def)
    have rep03: "reported swallowed e3 (new3 @ new2 @ new0)"
      by (rule reported_append [OF rep02 n3(2)])
    have unf: "TimedRotatingFile_doRollover t w =
      (case (e3, w3) of
         (Some err, w3) \<Rightarrow> Returns (Some err, t1, w3)
       | (None, w3) \<Rightarrow>
           (let w5 = (if t_backupCount t1 > 0
                      then (case TimedRotatingFile_getFilesToDelete t1 w3 of
                              (doomed, w4) \<Rightarrow> remove_each doomed w4)
                      else w3)
            in case TimedRotatingFile_reComputeRollover t1 w5 of
                 (t2, w6) \<Rightarrow> Returns (TimedRotatingFile_open t2 w6)))"
      using cl None rn unfolding TimedRotatingFile_doRollover_def Let_def dstPath_def w2_def
      by simp
    show ?thesis
    proof (cases e3)
      case (Some e)
      then have "err = e3" "t' = t1" "w' = w3" using assms unf by auto
      moreover have "trace w3 = (new3 @ new2 @ new0) @ trace w" using n0 n2 n3 by simp
      ultimately show ?thesis using rep03 n0(3) n2(3) n3(3,4) Some t1'
        by (auto simp: same_time_def)
    next
      case N3: None
      define w5 where "w5 = (if t_backupCount t1 > 0
                      then (case TimedRotatingFile_getFilesToDelete t1 w3 of
                              (doomed, w4) \<Rightarrow> remove_each doomed w4)
                      else w3)"
      have f5: "\<exists>new. trace w5 = new @ trace w3 \<and> (\<forall>x\<in>set new. swallowed (fst x)) \<and> same_time w3 w5"
      proof (cases "t_backupCount t1 > 0")
        case True
        obtain doomed w4 where g: "TimedRotatingFile_getFilesToDelete t1 w3 = (doomed, w4)"
          by (cases "TimedRotatingFile_getFilesToDelete t1 w3")
        from getFilesToDelete_facts [OF g] obtain new4 where
          n4: "trace w4 = new4 @ trace w3" "\<forall>x\<in>set new4. is_list (fst x)" "same_time w3 w4" by auto
        from remove_each_facts [of doomed w4] obtain new5 where
          n5: "trace (remove_each doomed w4) = new5 @ trace w4" "\<forall>x\<in>set new5. is_remove (fst x)"
            "same_time w4 (remove_each doomed w4)" by auto
        have "w5 = remove_each doomed w4" using True g by (simp add: w5_def)
        then have "trace w5 = (new5 @ new4) @ trace w3" using n4 n5 by simp
        moreover have "\<forall>x\<in>set (new5 @ new4). swallowed (fst x)"
          using n4 n5 by (auto simp: swallowed_def)
        moreover have "same_time w3 w5"
          using n4 n5 \<open>w5 = remove_each doomed w4\<close> by (auto intro: same_time_trans)
        ultimately show ?thesis by blast
      next
        case False
        then show ?thesis by (simp add: w5_def)
      qed
      then obtain new5 where n5: "trace w5 = new5 @ trace w3"
        "\<forall>x\<in>set new5. swallowed (fst x)" "same_time w3 w5" by auto
      have st: "same_time w w5"
        using n0(3) n2(3) n3(3) n5(3) by (auto intro: same_time_trans)
      define t2 where "t2 = t1\<lparr>t_rotatorAt :=
          int64 (clock w5 (ticks w5) +
                 int64 (t_interval t1 - int64 (local_seconds w5 (clock w5 (ticks w5)) mod 86400)))\<rparr>"
      define w6 where "w6 = w5\<lparr>ticks := Suc (ticks w5)\<rparr>"
      have op: "TimedRotatingFile_open t2 w6 = (err, t', w')"
        using assms unf N3 by (simp add: w5_def [symmetric] reComputeRollover_facts t2_def w6_def)
      from TimedRotatingFile_open_facts [OF op, of swallowed] obtain new7 where
        n7: "trace w' = new7 @ trace w6" "reported swallowed err new7" "same_time w6 w'"
        and t': "case err of
          None \<Rightarrow> t' = t2\<lparr>t_w := Some \<lparr>f_name = t_filename t2, f_closed = False\<rparr>\<rparr>
        | Some e \<Rightarrow> t' = t2 \<and> e = FsFailure (OpOpen (t_filename t2) FILE_MODE FILE_PERM)"
        by auto
      have rep05: "reported swallowed None (new5 @ new3 @ new2 @ new0)"
        using rep03 n5(2) N3 by (auto simp: reported_def)
      have rep: "reported swallowed err (new7 @ new5 @ new3 @ new2 @ new0)"
        by (rule reported_append [OF rep05 n7(2)])
      have tr: "trace w' = (new7 @ new5 @ new3 @ new2 @ new0) @ trace w"
        using n0 n2 n3 n5 n7 by (simp add: w6_def)
      have ls: "local_seconds w5 = local_seconds w"
        using st by (simp add: local_seconds_def same_time_def fun_eq_iff)
      have rot: "t_rotatorAt t2 = int64 (clock w (ticks w) +
                 int64 (t_interval t - int64 (local_seconds w (clock w (ticks w)) mod 86400)))"
        using st ls t1' by (simp add: t2_def same_time_def)
      have tm: "clock w' = clock w" "zone w' = zone w" "ticks w' = Suc (ticks w)"
        using st n7(3) by (simp_all add: same_time_def w6_def)
      have "case err of
           None \<Rightarrow> t_w t' = Some \<lparr>f_name = t_filename t, f_closed = False\<rparr>
         | Some e \<Rightarrow> t_w t' = None \<and> e = FsFailure (OpOpen (t_filename t) FILE_MODE FILE_PERM)"
        using t' t1' by (auto simp: t2_def split: option.splits)
      moreover have "t_rotatorAt t' = t_rotatorAt t2"
        using t' by (auto split: option.splits)
      ultimately show ?thesis using tr rep tm rot by auto
    qed
  qed
qed


lemma TimedRotatingFile_Write_facts:
  assumes "TimedRotatingFile_Write t data w = Returns ((n, err), t', w')"
  shows "(\<exists>new. trace w' = new @ trace w \<and> reported swallowed err new) \<and>
     (\<forall>op. err = Some (FsFailure op) \<longrightarrow> \<not> swallowed op) \<and>
     (\<forall>p m q. err = Some (FsFailure (OpOpen p m q)) \<longrightarrow> t_w t' = None) \<and>
     (t_w t \<noteq> None \<longrightarrow> t_rotatorAt t \<le> clock w (ticks w) \<longrightarrow>
        err \<noteq> None \<and> ticks w' = Suc (ticks w) \<and> t_rotatorAt t' = t_rotatorAt t
        \<or> ticks w' = Suc (Suc (ticks w)) \<and>
          t_rotatorAt t' =
            int64 (clock w (Suc (ticks w)) +
                   int64 (t_interval t -
                          int64 (local_seconds w (clock w (Suc (ticks w))) mod 86400))))"
proof (cases "t_w t")
  case None
  then have "err = Some ErrFileNotOpen" "w' = w" "t' = t"
    using assms by (auto simp: TimedRotatingFile_Write_def)
  with None show ?thesis by (simp add: reported_def)
next
  case (Some f)
  define w1 where "w1 = w\<lparr>ticks := Suc (ticks w)\<rparr>"
  define due where "due = (t_rotatorAt t \<le> clock w (ticks w))"
  have sh: "TimedRotatingFile_shouldRollover t w = (due, w1)"
    by (simp add: TimedRotatingFile_shouldRollover_def time_Now_Unix_def w1_def due_def)
  obtain e1 t1 w2 where ro:
    "(if due then TimedRotatingFile_doRollover t w1 else Returns (None, t, w1)) = Returns (e1, t1, w2)"
    using assms Some sh
    by (auto simp: TimedRotatingFile_Write_def split: outcome.splits prod.splits)
  have ls1: "local_seconds w1 = local_seconds w" by (simp add: w1_def local_seconds_ticks)
  have f1: "\<exists>new. trace w2 = new @ trace w \<and> reported swallowed e1 new \<and>
     clock w2 = clock w \<and> zone w2 = zone w \<and>
     (if due then
       ((\<exists>e. e1 = Some e \<and>
           (e = ErrClosed \<or> (\<exists>p. e = FsFailure (OpClose p)) \<or> (\<exists>p q. e = FsFailure (OpRename p q)))) \<and>
        ticks w2 = Suc (ticks w) \<and> t_rotatorAt t1 = t_rotatorAt t
      \<or> ticks w2 = Suc (Suc (ticks w)) \<and>
        t_rotatorAt t1 =
          int64 (clock w (Suc (ticks w)) +
                 int64 (t_interval t - int64 (local_seconds w (clock w (Suc (ticks w))) mod 86400))) \<and>
        (case e1 of
           None \<Rightarrow> t_w t1 = Some \<lparr>f_name = t_filename t, f_closed = False\<rparr>
         | Some e \<Rightarrow> t_w t1 = None \<and> e = FsFailure (OpOpen (t_filename t) FILE_MODE FILE_PERM)))
      else e1 = None \<and> t1 = t \<and> w2 = w1)"
  proof (cases due)
    case True
    with ro have "TimedRotatingFile_doRollover t w1 = Returns (e1, t1, w2)" by simp
    from TimedRotatingFile_doRollover_facts [OF this] True show ?thesis
      unfolding ls1 by (simp add: w1_def)
  next
    case False
    with ro show ?thesis by (auto simp: reported_def w1_def)
  qed
  then obtain new1 where n1: "trace w2 = new1 @ trace w" "reported swallowed e1 new1" by auto
  show ?thesis
  proof (cases e1)
    case E: (Some e)
    then have r: "err = e1" "t' = t1" "w' = w2" "n = 0"
      using assms Some sh ro by (auto simp: TimedRotatingFile_Write_def)
    have due using f1 E by (auto split: if_splits)
    with f1 n1 r E show ?thesis
      by (auto simp: due_def swallowed_def is_remove_def is_list_def FILE_MODE_def FILE_PERM_def)
  next
    case None
    then obtain g where g: "t_w t1 = Some g"
      using f1 Some by (auto split: if_splits)
    obtain res w3 where wr: "os_File_Write g data w2 = (res, w3)" by (cases "os_File_Write g data w2")
    then have r: "res = (n, err)" "t' = t1" "w' = w3"
      using assms Some sh ro None g by (auto simp: TimedRotatingFile_Write_def)
    have fw: "\<exists>new. trace w3 = new @ trace w2 \<and> reported swallowed err new \<and>
        (err = None \<or> err = Some ErrClosed \<or> err = Some (FsFailure (OpWrite (f_name g))))"
      using os_File_Write_facts [OF wr [unfolded r(1)]]
      by (cases "f_closed g") (auto simp: reported_def)
    then obtain new2 where n2: "trace w3 = new2 @ trace w2" "reported swallowed err new2"
       "err = None \<or> err = Some ErrClosed \<or> err = Some (FsFailure (OpWrite (f_name g)))" by auto
    have "reported swallowed err (new2 @ new1)"
      using n1 n2 None by (auto intro: reported_append)
    moreover have "trace w' = (new2 @ new1) @ trace w"
      using n1 n2 r by simp
    moreover have "\<forall>op. err = Some (FsFailure op) \<longrightarrow> \<not> swallowed op"
      using n2(3) by (auto simp: swallowed_def is_remove_def is_list_def)
    moreover have "\<forall>p m q. err = Some (FsFailure (OpOpen p m q)) \<longrightarrow> t_w t' = None"
      using n2(3) by auto
    moreover have "ticks w' = ticks w2" using os_File_Write_time [OF wr] by (simp add: same_time_def r)
    ultimately show ?thesis using f1 None r
      by (auto simp: due_def w1_def split: if_splits)
  qed
qed

lemma TimedRotatingFile_Write_returns:
  "\<exists>n err t' w'. TimedRotatingFile_Write t data w = Returns ((n, err), t', w')"
proof (cases "t_w t")
  case None
  then show ?thesis by (simp add: TimedRotatingFile_Write_def)
next
  case (Some f)
  obtain due w1 where sh: "TimedRotatingFile_shouldRollover t w = (due, w1)"
    by (cases "TimedRotatingFile_shouldRollover t w")
  have "\<exists>e1 t1 w2. (if due then TimedRotatingFile_doRollover t w1 else Returns (None, t, w1))
      = Returns (e1, t1, w2) \<and> (e1 = None \<longrightarrow> t_w t1 \<noteq> None)"
  proof (cases due)
    case True
    have "TimedRotatingFile_doRollover t w1 \<noteq> Panics"
      using Some
      by (auto simp: TimedRotatingFile_doRollover_def TimedRotatingFile_Close_def Let_def
            split: option.splits prod.splits outcome.splits)
    then obtain e1 t1 w2 where d: "TimedRotatingFile_doRollover t w1 = Returns (e1, t1, w2)"
      by (cases "TimedRotatingFile_doRollover t w1") auto
    from TimedRotatingFile_doRollover_facts [OF d] have "e1 = None \<longrightarrow> t_w t1 \<noteq> None" by auto
    with d True show ?thesis by simp
  next
    case False
    with Some show ?thesis by simp
  qed
  then obtain e1 t1 w2 where ro:
    "(if due then TimedRotatingFile_doRollover t w1 else Returns (None, t, w1)) = Returns (e1, t1, w2)"
    "e1 = None \<longrightarrow> t_w t1 \<noteq> None" by blast
  show ?thesis
    using Some sh ro
    by (cases e1) (auto simp: TimedRotatingFile_Write_def split: prod.splits)
qed

lemma doRollover_staged [code]:
  "TimedRotatingFile_doRollover t w = rollover_closed (TimedRotatingFile_Close t w)"
  by (simp add: TimedRotatingFile_doRollover_def Let_def rollover_dstPath_def rollover_unlink_def
        rollover_rename_def rollover_prune_def
        split: outcome.splits prod.splits option.splits)

lemma RotatingFile_Writes_closed:
  "r_w r = None \<Longrightarrow>
     RotatingFile_Writes r ds w = Returns (map (\<lambda>_. (0, Some ErrFileNotOpen)) ds, r, w)"
  by (induction ds) (simp_all add: RotatingFile_Write_def)

lemma TimedRotatingFile_Writes_closed:
  "t_w t = None \<Longrightarrow>
     TimedRotatingFile_Writes t ds w = Returns (map (\<lambda>_. (0, Some ErrFileNotOpen)) ds, t, w)"
  by (induction ds) (simp_all add: TimedRotatingFile_Write_def)

lemma RotatingFile_open_keeps:
  assumes "RotatingFile_open r w = (err, r', w')"
  shows "\<exists>new. trace w' = new @ trace w \<and>
           (\<forall>x\<in>set new. \<not> is_remove (fst x) \<and> \<not> is_rename (fst x)) \<and>
           (\<forall>p c. content w p = Some c \<longrightarrow> content w' p = Some c) \<and>
           (err = None \<longrightarrow>
              r_nbytes r' = (case content w (r_filename r) of None \<Rightarrow> 0 | Some c \<Rightarrow> int (length c)) \<and>
              r_w r' \<noteq> None)"
proof -
  obtain res w1 where op: "os_OpenFile (r_filename r) FILE_MODE FILE_PERM w = (res, w1)"
    by (cases "os_OpenFile (r_filename r) FILE_MODE FILE_PERM w")
  note f1 = os_OpenFile_facts [OF op]
  show ?thesis
  proof (cases res)
    case (Inl e)
    then have "err = Some e" "r' = r" "w' = w1" using assms op by (auto simp: RotatingFile_open_def)
    with f1 Inl show ?thesis by (auto simp: is_remove_def is_rename_def)
  next
    case (Inr fl)
    then have fl: "fl = \<lparr>f_name = r_filename r, f_closed = False\<rparr>" using f1 by auto
    obtain res2 w2 where st: "os_File_Stat fl w1 = (res2, w2)" by (cases "os_File_Stat fl w1")
    have f2: "trace w2 = [(OpStat (r_filename r), res2 = Inl (FsFailure (OpStat (r_filename r))))] @ trace w1 \<and>
     content w2 = content w1 \<and>
     (res2 = Inl (FsFailure (OpStat (r_filename r))) \<or>
      res2 = Inr (case content w1 (r_filename r) of None \<Rightarrow> 0 | Some c \<Rightarrow> int (length c)))"
      using os_File_Stat_facts [OF st] fl by simp
    show ?thesis
    proof (cases res2)
      case (Inl e)
      then have "err = Some e" "r' = r" "w' = w2" using assms op st Inr by (auto simp: RotatingFile_open_def)
      with f1 f2 Inl Inr show ?thesis by (auto simp: is_remove_def is_rename_def)
    next
      case Inr2: (Inr sz)
      then have "err = None" "r' = r\<lparr>r_nbytes := sz, r_w := Some (NewWriteCloser fl)\<rparr>" "w' = w2"
        using assms op st Inr by (auto simp: RotatingFile_open_def)
      with f1 f2 Inr Inr2 fl show ?thesis
        by (auto simp: is_remove_def is_rename_def split: option.splits)
    qed
  qed
qed

section \<open>Paths\<close>

lemma filepath_Abs_cleans:
  "filepath_Abs ''./app.log'' (quiet_world []) = ''/var/log/app.log'' \<and>
   filepath_Abs ''logs/../app.log'' (quiet_world []) = ''/var/log/app.log'' \<and>
   filepath_Abs ''/srv//log/./app.log'' (quiet_world []) = ''/srv/log/app.log'' \<and>
   filepath_Abs ''../app.log'' (quiet_world []) = ''/var/app.log''"
  by code_simp

lemma NewTimedRotatingFile_cleans:
  "(case NewTimedRotatingFile ''./logs/../app.log'' (quiet_world []) of
      Returns (t, w) \<Rightarrow> Some (t_filename t, trace w)
    | Panics \<Rightarrow> None)
     = Some (''/var/log/app.log'', [(OpOpen ''/var/log/app.log'' 1089 420, False)])"
  by code_simp
section \<open>The claims\<close>

text \<open>
  C1. During a size-based rotation with \<open>backupCount = 3\<close>, where \<^verbatim>\<open>app.log.1\<close> exists
  and \<^verbatim>\<open>app.log.2\<close> does not, the claim has \<^verbatim>\<open>app.log.1\<close> renamed to the vacant
  \<^verbatim>\<open>app.log.2\<close>. The code makes no such call: it removes \<^verbatim>\<open>app.log.1\<close>, renames the
  active file onto it and reopens. No \<^verbatim>\<open>app.log.2\<close> exists afterwards and the old
  content of \<^verbatim>\<open>app.log.1\<close> is gone.
\<close>

theorem doRollover_skips_vacant_slot:
  "(case RotatingFile_doRollover (app_log 10 3 3)
           (quiet_world [(''app.log'', ''cur''), (''app.log.1'', ''old'')]) of
      (err, r, w) \<Rightarrow> (err, files w, trace w))
   = (None,
      [(''app.log.1'', ''cur''), (''app.log'', [])],
      [(OpStat ''app.log'', False), (OpOpen ''app.log'' 1089 420, False),
       (OpRename ''app.log'' ''app.log.1'', False), (OpRemove ''app.log.1'', False),
       (OpClose ''app.log'', False)])"
  by code_simp

text \<open>
  C2. A size-based writer with \<open>maxSize = 5\<close> and \<open>backupCount = 2\<close> on an empty
  directory, written to four times with five bytes each, rotates three times. The claim
  has \<^verbatim>\<open>app.log.1\<close> and \<^verbatim>\<open>app.log.2\<close> hold the two most recently rotated contents. The
  code leaves one backup: \<^verbatim>\<open>app.log.1\<close> with the third payload; the second payload is
  lost and \<^verbatim>\<open>app.log.2\<close> never appears.
\<close>

theorem ladder_keeps_one_backup:
  "(case NewRotatingFile ''app.log'' 5 2 (quiet_world []) of
      Panics \<Rightarrow> None
    | Returns (r, w) \<Rightarrow>
        (case RotatingFile_Writes r [''aaaaa'', ''bbbbb'', ''ccccc'', ''ddddd''] w of
           Panics \<Rightarrow> None
         | Returns (rs, r1, w1) \<Rightarrow> Some (rs, files w1)))
   = Some ([(5, None), (5, None), (5, None), (5, None)],
           [(''app.log.1'', ''ccccc''), (''app.log'', ''ddddd'')])"
  by code_simp

text \<open>
  C3. After \<^verbatim>\<open>ResetDefaultFilePerm(p)\<close> the claim has every open use the permission
  \<open>p\<close>. The code stores \<open>p\<close> in \<^verbatim>\<open>filePerm\<close> and never reads it. The open of the
  time-based handler passes \<^verbatim>\<open>0644\<close> (420) to \<^verbatim>\<open>os.OpenFile\<close> whatever \<open>p\<close> is; after
  \<^verbatim>\<open>ResetDefaultFilePerm(0600)\<close> (384) so do the construction of a size-based handler,
  the construction of a time-based handler, and the reopen in a size-based rotation.
\<close>

theorem open_ignores_filePerm:
  "trace (snd (snd (TimedRotatingFile_open t (ResetDefaultFilePerm p w))))
     = (OpOpen (t_filename t) FILE_MODE 420,
        fails w (length (trace w)) (OpOpen (t_filename t) FILE_MODE 420)) # trace w \<and>
   (case NewRotatingFile ''app.log'' 10 2 (ResetDefaultFilePerm 384 (quiet_world [])) of
      Panics \<Rightarrow> None
    | Returns (r, w) \<Rightarrow> Some (filePerm w, trace w))
     = Some (384, [(OpStat ''app.log'', False), (OpOpen ''app.log'' 1089 420, False)]) \<and>
   (case NewTimedRotatingFile ''app.log'' (ResetDefaultFilePerm 384 (quiet_world [])) of
      Panics \<Rightarrow> None
    | Returns (t, w) \<Rightarrow> Some (filePerm w, trace w))
     = Some (384, [(OpOpen ''/var/log/app.log'' 1089 420, False)]) \<and>
   (case RotatingFile_Write (app_log 10 1 8) ''abcdef''
           (ResetDefaultFilePerm 384 (quiet_world [(''app.log'', ''12345678'')])) of
      Panics \<Rightarrow> None
    | Returns (res, r, w) \<Rightarrow> Some (filePerm w, trace w))
     = Some (384,
             [(OpWrite ''app.log'', False), (OpStat ''app.log'', False),
              (OpOpen ''app.log'' 1089 420, False),
              (OpRename ''app.log'' ''app.log.1'', False), (OpClose ''app.log'', False)])"
proof (intro conjI)
  show "trace (snd (snd (TimedRotatingFile_open t (ResetDefaultFilePerm p w))))
     = (OpOpen (t_filename t) FILE_MODE 420,
        fails w (length (trace w)) (OpOpen (t_filename t) FILE_MODE 420)) # trace w"
    by (simp add: TimedRotatingFile_open_def ResetDefaultFilePerm_def os_OpenFile_def
          sys_call_def FILE_PERM_def Let_def split: option.split)
  show "(case NewRotatingFile ''app.log'' 10 2 (ResetDefaultFilePerm 384 (quiet_world [])) of
      Panics \<Rightarrow> None
    | Returns (r, w) \<Rightarrow> Some (filePerm w, trace w))
     = Some (384, [(OpStat ''app.log'', False), (OpOpen ''app.log'' 1089 420, False)])"
    by code_simp
  show "(case NewTimedRotatingFile ''app.log'' (ResetDefaultFilePerm 384 (quiet_world [])) of
      Panics \<Rightarrow> None
    | Returns (t, w) \<Rightarrow> Some (filePerm w, trace w))
     = Some (384, [(OpOpen ''/var/log/app.log'' 1089 420, False)])"
    by code_simp
  show "(case RotatingFile_Write (app_log 10 1 8) ''abcdef''
           (ResetDefaultFilePerm 384 (quiet_world [(''app.log'', ''12345678'')])) of
      Panics \<Rightarrow> None
    | Returns (res, r, w) \<Rightarrow> Some (filePerm w, trace w))
     = Some (384,
             [(OpWrite ''app.log'', False), (OpStat ''app.log'', False),
              (OpOpen ''app.log'' 1089 420, False),
              (OpRename ''app.log'' ''app.log.1'', False), (OpClose ''app.log'', False)])"
    by code_simp
qed

text \<open>
  C4. The claim has a failed directory listing and a failed file removal in a
  time-based rotation returned by \<^verbatim>\<open>Write\<close>. In a world where every listing and every
  removal fails, with an older \<^verbatim>\<open>app.log.2023-11-13\<close> in the way, the rotation of the
  time-based handler goes on past both failures (the older file is replaced by the
  rename, nothing is pruned) and \<^verbatim>\<open>Write\<close> returns \<open>(1, nil)\<close>.
\<close>

theorem timed_rotation_swallows_failures:
  "(case TimedRotatingFile_Write (app_timed 1699920000) ''x''
           (failing_world swallowed
              [(''/var/log/app.log'', ''cur''), (''/var/log/app.log.2023-11-13'', ''old'')]) of
      Panics \<Rightarrow> None
    | Returns ((n, err), t', w') \<Rightarrow> Some (n, err, files w', trace w'))
   = Some (1, None,
           [(''/var/log/app.log.2023-11-13'', ''cur''), (''/var/log/app.log'', ''x'')],
           [(OpWrite ''/var/log/app.log'', False),
            (OpOpen ''/var/log/app.log'' 1089 420, False),
            (OpListDir ''/var/log/'', True),
            (OpRename ''/var/log/app.log'' ''/var/log/app.log.2023-11-13'', False),
            (OpRemove ''/var/log/app.log.2023-11-13'', True),
            (OpClose ''/var/log/app.log'', False)])"
  by code_simp

text \<open>
  C4, amended. Inside a write or rotation, a failed open, rename or stat, and a failed
  remove of the size-based writer, is the error that \<^verbatim>\<open>Write\<close> returns, and no call
  is made after it: for the size-based writer every failed call but a close, for the
  time-based writer every failed call but a removal or a directory listing, is the
  last call of the \<^verbatim>\<open>Write\<close> and its error the result. The time-based writer never
  returns the error of a removal or of a directory listing: its rotation goes on.
\<close>

theorem failures_reported_or_swallowed:
  "(RotatingFile_Write r data v = Returns ((n, err), r', v') \<longrightarrow>
      (\<forall>op. (op, True) \<in> set (calls_since v v') \<and> \<not> is_close op \<longrightarrow>
              err = Some (FsFailure op) \<and> hd (calls_since v v') = (op, True))) \<and>
   (TimedRotatingFile_Write t data w = Returns ((m, terr), t', w') \<longrightarrow>
      (\<forall>op. (op, True) \<in> set (calls_since w w') \<and> \<not> is_remove op \<and> \<not> is_list op \<longrightarrow>
              terr = Some (FsFailure op) \<and> hd (calls_since w w') = (op, True)) \<and>
      (\<forall>op. terr = Some (FsFailure op) \<longrightarrow> \<not> is_remove op \<and> \<not> is_list op))"
proof (intro conjI impI allI)
  fix op
  assume W: "RotatingFile_Write r data v = Returns ((n, err), r', v')"
    and op: "(op, True) \<in> set (calls_since v v') \<and> \<not> is_close op"
  from RotatingFile_Write_reported [OF W] obtain new where
    new: "trace v' = new @ trace v" "reported is_close err new" by auto
  have cs: "calls_since v v' = new" using new(1) by (rule calls_since_append)
  from reported_hd [OF new(2), of op] op
  show "err = Some (FsFailure op)" "hd (calls_since v v') = (op, True)"
    unfolding cs by auto
next
  fix op
  assume W: "TimedRotatingFile_Write t data w = Returns ((m, terr), t', w')"
    and op: "(op, True) \<in> set (calls_since w w') \<and> \<not> is_remove op \<and> \<not> is_list op"
  from TimedRotatingFile_Write_facts [OF W] obtain new where
    new: "trace w' = new @ trace w" "reported swallowed terr new" by auto
  have cs: "calls_since w w' = new" using new(1) by (rule calls_since_append)
  from reported_hd [OF new(2), of op] op
  show "terr = Some (FsFailure op)" "hd (calls_since w w') = (op, True)"
    unfolding cs by (auto simp: swallowed_def)
next
  fix op
  assume W: "TimedRotatingFile_Write t data w = Returns ((m, terr), t', w')"
    and e: "terr = Some (FsFailure op)"
  from TimedRotatingFile_Write_facts [OF W] e
  show "\<not> is_remove op" "\<not> is_list op"
    by (auto simp: swallowed_def)
qed

theorem failures_reported_or_swallowed_witness:
  "(\<exists>n err r' v'.
      RotatingFile_Write (app_log 10 1 8) ''abcdef''
          (failing_world is_rename [(''app.log'', ''12345678'')]) = Returns ((n, err), r', v') \<and>
      (OpRename ''app.log'' ''app.log.1'', True)
        \<in> set (calls_since (failing_world is_rename [(''app.log'', ''12345678'')]) v') \<and>
      \<not> is_close (OpRename ''app.log'' ''app.log.1'') \<and>
      err = Some (FsFailure (OpRename ''app.log'' ''app.log.1'')) \<and>
      hd (calls_since (failing_world is_rename [(''app.log'', ''12345678'')]) v')
        = (OpRename ''app.log'' ''app.log.1'', True)) \<and>
   (\<exists>m terr t' w'.
      TimedRotatingFile_Write (app_timed 1699920000) ''x''
          (failing_world is_rename [(''/var/log/app.log'', ''cur'')]) = Returns ((m, terr), t', w') \<and>
      (OpRename ''/var/log/app.log'' ''/var/log/app.log.2023-11-13'', True)
        \<in> set (calls_since (failing_world is_rename [(''/var/log/app.log'', ''cur'')]) w') \<and>
      \<not> is_remove (OpRename ''/var/log/app.log'' ''/var/log/app.log.2023-11-13'') \<and>
      \<not> is_list (OpRename ''/var/log/app.log'' ''/var/log/app.log.2023-11-13'') \<and>
      terr = Some (FsFailure (OpRename ''/var/log/app.log'' ''/var/log/app.log.2023-11-13'')) \<and>
      hd (calls_since (failing_world is_rename [(''/var/log/app.log'', ''cur'')]) w')
        = (OpRename ''/var/log/app.log'' ''/var/log/app.log.2023-11-13'', True))"
proof
  let ?r = "app_log 10 1 8" and ?v = "failing_world is_rename [(''app.log'', ''12345678'')]"
  let ?op = "OpRename ''app.log'' ''app.log.1''"
  have "(case RotatingFile_Write ?r ''abcdef'' ?v of
           Panics \<Rightarrow> False
         | Returns ((n, err), r', v') \<Rightarrow> (?op, True) \<in> set (calls_since ?v v'))"
    by code_simp
  then obtain n err r' v' where
    W: "RotatingFile_Write ?r ''abcdef'' ?v = Returns ((n, err), r', v')" and
    mem: "(?op, True) \<in> set (calls_since ?v v')"
    by (auto split: outcome.splits)
  have nc: "\<not> is_close ?op" by (simp add: is_close_def)
  from failures_reported_or_swallowed [where r = ?r and data = "''abcdef''" and v = ?v
      and n = n and err = err and r' = r' and v' = v'] W mem nc
  have "err = Some (FsFailure ?op) \<and> hd (calls_since ?v v') = (?op, True)" by blast
  with W mem nc show "\<exists>n err r' v'.
      RotatingFile_Write ?r ''abcdef'' ?v = Returns ((n, err), r', v') \<and>
      (?op, True) \<in> set (calls_since ?v v') \<and> \<not> is_close ?op \<and>
      err = Some (FsFailure ?op) \<and> hd (calls_since ?v v') = (?op, True)"
    by blast
next
  let ?t = "app_timed 1699920000" and ?w = "failing_world is_rename [(''/var/log/app.log'', ''cur'')]"
  let ?op = "OpRename ''/var/log/app.log'' ''/var/log/app.log.2023-11-13''"
  have "(case TimedRotatingFile_Write ?t ''x'' ?w of
           Panics \<Rightarrow> False
         | Returns ((m, terr), t', w') \<Rightarrow> (?op, True) \<in> set (calls_since ?w w'))"
    by code_simp
  then obtain m terr t' w' where
    W: "TimedRotatingFile_Write ?t ''x'' ?w = Returns ((m, terr), t', w')" and
    mem: "(?op, True) \<in> set (calls_since ?w w')"
    by (auto split: outcome.splits)
  have nc: "\<not> is_remove ?op" "\<not> is_list ?op" by (simp_all add: is_remove_def is_list_def)
  from failures_reported_or_swallowed [where t = ?t and data = "''x''" and w = ?w
      and m = m and terr = terr and t' = t' and w' = w'] W mem nc
  have "terr = Some (FsFailure ?op) \<and> hd (calls_since ?w w') = (?op, True)" by blast
  with W mem nc show "\<exists>m terr t' w'.
      TimedRotatingFile_Write ?t ''x'' ?w = Returns ((m, terr), t', w') \<and>
      (?op, True) \<in> set (calls_since ?w w') \<and> \<not> is_remove ?op \<and> \<not> is_list ?op \<and>
      terr = Some (FsFailure ?op) \<and> hd (calls_since ?w w') = (?op, True)"
    by blast
qed

text \<open>
  C5. For a size-based writer with \<open>backupCount = 0\<close> the claim has a rotation delete
  \<^verbatim>\<open>app.log.1\<close> and rename the active file onto it. The code does neither: on
  \<^verbatim>\<open>app.log\<close> ("cur") and \<^verbatim>\<open>app.log.1\<close> ("old") it closes and reopens \<^verbatim>\<open>app.log\<close>, both
  files keep their content and the counter is 3 again.
\<close>

theorem doRollover_keeps_active_file:
  "(case RotatingFile_doRollover (app_log 10 0 3)
           (quiet_world [(''app.log'', ''cur''), (''app.log.1'', ''old'')]) of
      (err, r, w) \<Rightarrow> (err, r_nbytes r, files w, trace w))
   = (None, 3,
      [(''app.log'', ''cur''), (''app.log.1'', ''old'')],
      [(OpStat ''app.log'', False), (OpOpen ''app.log'' 1089 420, False),
       (OpClose ''app.log'', False)])"
  by code_simp

text \<open>
  C5, amended. For a size-based writer with \<open>backupCount = 0\<close> (or less) a rotation
  does not retire the active file: it makes no remove and no rename call, every file
  keeps its content, the active file and \<^verbatim>\<open>target.1\<close> included, and after a successful
  reopen the handler holds a handle again and its counter is the size of the active
  file (0 when the file had been missing).
\<close>

theorem doRollover_without_backups:
  assumes "r_backupCount r \<le> 0"
  shows "case RotatingFile_doRollover r w of
           (err, r', w') \<Rightarrow>
             (\<forall>x\<in>set (calls_since w w'). \<not> is_remove (fst x) \<and> \<not> is_rename (fst x)) \<and>
             (\<forall>p c. content w p = Some c \<longrightarrow> content w' p = Some c) \<and>
             (err = None \<longrightarrow>
                r_nbytes r' = (case content w (r_filename r) of None \<Rightarrow> 0 | Some c \<Rightarrow> int (length c)) \<and>
                r_w r' \<noteq> None)"
proof -
  obtain e0 r1 w1 where cl: "RotatingFile_close r w = (e0, r1, w1)"
    by (cases "RotatingFile_close r w") auto
  from RotatingFile_close_facts [OF cl] obtain new0 where
    r1: "r1 = r\<lparr>r_w := None\<rparr>" and fw1: "files w1 = files w" and
    n0: "trace w1 = new0 @ trace w" "\<forall>x\<in>set new0. is_close (fst x)"
    by auto
  have c1: "content w1 = content w" using fw1 by (simp add: content_def fun_eq_iff)
  obtain err r' w' where op: "RotatingFile_open r1 w1 = (err, r', w')"
    by (cases "RotatingFile_open r1 w1") auto
  from RotatingFile_open_keeps [OF op] obtain new1 where
    n1: "trace w' = new1 @ trace w1"
      "\<forall>x\<in>set new1. \<not> is_remove (fst x) \<and> \<not> is_rename (fst x)"
      "\<forall>p c. content w1 p = Some c \<longrightarrow> content w' p = Some c"
      "err = None \<longrightarrow>
         r_nbytes r' = (case content w1 (r_filename r1) of None \<Rightarrow> 0 | Some c \<Rightarrow> int (length c)) \<and>
         r_w r' \<noteq> None"
    by blast
  have d: "RotatingFile_doRollover r w = (err, r', w')"
    using assms cl op r1 by (simp add: RotatingFile_doRollover_def)
  have cs: "calls_since w w' = new1 @ new0"
    using n0 n1 by (intro calls_since_append) simp
  have "\<forall>x\<in>set new0. \<not> is_remove (fst x) \<and> \<not> is_rename (fst x)"
    using n0(2) by (auto simp: is_close_def is_remove_def is_rename_def split: fs_op.splits)
  with n1 c1 r1 show ?thesis unfolding d by (simp add: cs) blast
qed

theorem doRollover_without_backups_witness:
  "r_backupCount (app_log 10 0 3) \<le> 0 \<and>
   (case RotatingFile_doRollover (app_log 10 0 3)
           (quiet_world [(''app.log'', ''cur''), (''app.log.1'', ''old'')]) of
      (err, r', w') \<Rightarrow>
        (\<forall>x\<in>set (calls_since (quiet_world [(''app.log'', ''cur''), (''app.log.1'', ''old'')]) w').
            \<not> is_remove (fst x) \<and> \<not> is_rename (fst x)) \<and>
        (\<forall>p c. content (quiet_world [(''app.log'', ''cur''), (''app.log.1'', ''old'')]) p = Some c
            \<longrightarrow> content w' p = Some c) \<and>
        (err = None \<longrightarrow>
           r_nbytes r' =
             (case content (quiet_world [(''app.log'', ''cur''), (''app.log.1'', ''old'')])
                     (r_filename (app_log 10 0 3)) of
                None \<Rightarrow> 0 | Some c \<Rightarrow> int (length c)) \<and>
           r_w r' \<noteq> None))"
proof -
  have h: "r_backupCount (app_log 10 0 3) \<le> 0" by (simp add: app_log_def)
  show ?thesis
    by (intro conjI h doRollover_without_backups [OF h])
qed

text \<open>
  C6. For the size-based writer a rotation is triggered exactly when
  \<open>writtenBytes + len(data) > maxBytes\<close>, checked before the write. Stated for a usable
  handler whose counter is not negative and whose sum stays below \<open>2^63\<close>: \<^verbatim>\<open>Write\<close>
  returns; it closes the handle (the first step of a rotation) exactly when the sum
  exceeds \<open>r_maxSize\<close>, so always when the payload alone does, also on an empty file.
  The write succeeds when the environment makes no call fail, and in general exactly
  when no call other than the close of the old handle failed. On success the whole
  payload was written by one write call, the last call made, to the active file, whose
  content ends with the payload, and the handler is usable again. After a rotation that
  keeps backups the old content of the active file is the content of \<^verbatim>\<open>filename.1\<close> and
  the freshly opened active file holds the payload and nothing else; after a rotation
  that keeps none the payload is appended to the old content; without a rotation the
  payload is appended to the old content and no other file changes.
\<close>

theorem RotatingFile_Write_rotation_trigger:
  assumes us: "usable r w" and nb: "0 \<le> r_nbytes r"
    and rg: "r_nbytes r + int (length data) < 2 ^ 63"
  shows "\<exists>n err r' w'. RotatingFile_Write r data w = Returns ((n, err), r', w') \<and>
           ((OpClose (r_filename r) \<in> fst ` set (calls_since w w')) =
              (r_maxSize r < r_nbytes r + int (length data))) \<and>
           (r_maxSize r < int (length data) \<longrightarrow>
              OpClose (r_filename r) \<in> fst ` set (calls_since w w')) \<and>
           (never_fails w \<longrightarrow> err = None) \<and>
           ((err = None) = (\<forall>x\<in>set (calls_since w w'). snd x \<longrightarrow> is_close (fst x))) \<and>
           (err = None \<longrightarrow>
              n = int (length data) \<and>
              hd (calls_since w w') = (OpWrite (r_filename r), False) \<and>
              filter (\<lambda>x. is_write (fst x)) (calls_since w w') = [(OpWrite (r_filename r), False)] \<and>
              (\<exists>c. content w' (r_filename r) = Some (c @ data)) \<and>
              usable r' w' \<and>
              (if r_maxSize r < r_nbytes r + int (length data)
               then (0 < r_backupCount r \<longrightarrow>
                       content w' (r_filename r @ ''.1'') = content w (r_filename r) \<and>
                       content w' (r_filename r) = Some data \<and> r_nbytes r' = int (length data)) \<and>
                    (\<not> 0 < r_backupCount r \<longrightarrow>
                       (\<exists>c. content w (r_filename r) = Some c \<and>
                            content w' (r_filename r) = Some (c @ data) \<and>
                            r_nbytes r' = int64 (int (length c) + int (length data))))
               else (\<exists>c. content w (r_filename r) = Some c \<and>
                         files w' = AList.update (r_filename r) (c @ data) (files w)) \<and>
                    r_nbytes r' = r_nbytes r + int (length data)))"
proof -
  let ?fn = "r_filename r"
  from RotatingFile_Write_trigger_facts [OF us nb rg] obtain n err r' w' where
    W: "RotatingFile_Write r data w = Returns ((n, err), r', w')"
    and t1: "(OpClose ?fn \<in> fst ` set (calls_since w w')) =
              (r_maxSize r < r_nbytes r + int (length data))"
    and t2: "r_maxSize r < int (length data) \<longrightarrow> OpClose ?fn \<in> fst ` set (calls_since w w')"
    and ok: "err = None \<longrightarrow>
              n = int (length data) \<and>
              hd (calls_since w w') = (OpWrite ?fn, False) \<and>
              filter (\<lambda>x. is_write (fst x)) (calls_since w w') = [(OpWrite ?fn, False)] \<and>
              (\<exists>c. content w' ?fn = Some (c @ data)) \<and>
              (if r_maxSize r < r_nbytes r + int (length data)
               then (0 < r_backupCount r \<longrightarrow>
                       content w' ?fn = Some data \<and> r_nbytes r' = int (length data)) \<and>
                    (\<not> 0 < r_backupCount r \<longrightarrow>
                       (\<exists>c. content w ?fn = Some c \<and>
                            content w' ?fn = Some (c @ data) \<and>
                            r_nbytes r' = int64 (int (length c) + int (length data))))
               else (\<exists>c. content w ?fn = Some c \<and>
                         files w' = AList.update ?fn (c @ data) (files w)) \<and>
                    r_nbytes r' = r_nbytes r + int (length data))"
    by blast
  have i64: "int64 (r_nbytes r + int (length data)) = r_nbytes r + int (length data)"
    using nb rg by (intro int64_id) auto
  from RotatingFile_Write_outcome [OF us W] i64 have
    q: "never_fails w \<longrightarrow> err = None" and
    rf: "\<forall>e. err = Some e \<longrightarrow> rotation_failure e" and
    u: "err = None \<longrightarrow> usable r' w'" and
    bk: "err = None \<longrightarrow> r_maxSize r < r_nbytes r + int (length data) \<longrightarrow> 0 < r_backupCount r \<longrightarrow>
           content w' (?fn @ ''.1'') = content w ?fn"
    by simp_all
  from RotatingFile_Write_reported [OF W] obtain new where
    new: "trace w' = new @ trace w" "reported is_close err new" by blast
  have cs: "calls_since w w' = new" using new(1) by (rule calls_since_append)
  have iff: "(err = None) = (\<forall>x\<in>set (calls_since w w'). snd x \<longrightarrow> is_close (fst x))"
  proof (cases err)
    case None
    with new(2) cs show ?thesis by (simp add: reported_def)
  next
    case (Some e)
    with rf obtain op where e: "e = FsFailure op" "\<not> is_close op"
      by (auto simp: rotation_failure_def split: error.splits)
    with new(2) Some have "(op, True) \<in> set new" by (auto simp: reported_def)
    with e(2) cs Some show ?thesis by force
  qed
  from ok u bk have ok': "err = None \<longrightarrow>
              n = int (length data) \<and>
              hd (calls_since w w') = (OpWrite ?fn, False) \<and>
              filter (\<lambda>x. is_write (fst x)) (calls_since w w') = [(OpWrite ?fn, False)] \<and>
              (\<exists>c. content w' ?fn = Some (c @ data)) \<and>
              usable r' w' \<and>
              (if r_maxSize r < r_nbytes r + int (length data)
               then (0 < r_backupCount r \<longrightarrow>
                       content w' (?fn @ ''.1'') = content w ?fn \<and>
                       content w' ?fn = Some data \<and> r_nbytes r' = int (length data)) \<and>
                    (\<not> 0 < r_backupCount r \<longrightarrow>
                       (\<exists>c. content w ?fn = Some c \<and>
                            content w' ?fn = Some (c @ data) \<and>
                            r_nbytes r' = int64 (int (length c) + int (length data))))
               else (\<exists>c. content w ?fn = Some c \<and>
                         files w' = AList.update ?fn (c @ data) (files w)) \<and>
                    r_nbytes r' = r_nbytes r + int (length data))"
    by (cases "r_maxSize r < r_nbytes r + int (length data)") simp_all
  from W t1 t2 q iff ok' show ?thesis by blast
qed

theorem RotatingFile_Write_rotation_trigger_witness:
  "usable (app_log 10 2 3) (quiet_world [(''app.log'', ''old''), (''app.log.1'', ''older'')]) \<and>
   0 \<le> r_nbytes (app_log 10 2 3) \<and>
   r_nbytes (app_log 10 2 3) + int (length ''0123456789ab'') < 2 ^ 63 \<and>
   never_fails (quiet_world [(''app.log'', ''old''), (''app.log.1'', ''older'')]) \<and>
   (\<exists>r' w'.
      RotatingFile_Write (app_log 10 2 3) ''0123456789ab''
          (quiet_world [(''app.log'', ''old''), (''app.log.1'', ''older'')])
        = Returns ((12, None), r', w') \<and>
      OpClose ''app.log''
        \<in> fst ` set (calls_since (quiet_world [(''app.log'', ''old''), (''app.log.1'', ''older'')]) w') \<and>
      hd (calls_since (quiet_world [(''app.log'', ''old''), (''app.log.1'', ''older'')]) w')
        = (OpWrite ''app.log'', False) \<and>
      content w' ''app.log.1'' = Some ''old'' \<and>
      content w' ''app.log'' = Some ''0123456789ab'' \<and>
      r_nbytes r' = 12 \<and> usable r' w') \<and>
   (case RotatingFile_Write (app_log 10 2 3) ''0123456789ab''
           (quiet_world [(''app.log'', ''old''), (''app.log.1'', ''older'')]) of
      Returns ((n, err), r', w') \<Rightarrow> Some (n, err, r_nbytes r', files w', trace w')
    | Panics \<Rightarrow> None)
     = Some (12, None, 12, [(''app.log.1'', ''old''), (''app.log'', ''0123456789ab'')],
         [(OpWrite ''app.log'', False), (OpStat ''app.log'', False),
          (OpOpen ''app.log'' 1089 420, False), (OpRename ''app.log'' ''app.log.1'', False),
          (OpRemove ''app.log.1'', False), (OpClose ''app.log'', False)])"
proof -
  let ?r = "app_log 10 2 3"
  let ?w = "quiet_world [(''app.log'', ''old''), (''app.log.1'', ''older'')]"
  have h1: "usable ?r ?w"
    by (simp add: usable_def app_log_def quiet_world_def NewWriteCloser_def content_def)
  have h2: "0 \<le> r_nbytes ?r"
    by (simp add: app_log_def)
  have h3: "r_nbytes ?r + int (length ''0123456789ab'') < 2 ^ 63"
    by (simp add: app_log_def)
  have h4: "never_fails ?w"
    by (simp add: never_fails_def quiet_world_def)
  have cw: "content ?w ''app.log'' = Some ''old''"
    by (simp add: content_def quiet_world_def)
  have fn: "r_filename ?r = ''app.log''" "r_maxSize ?r = 10" "r_backupCount ?r = 2" "r_nbytes ?r = 3"
    by (simp_all add: app_log_def)
  have ev: "(case RotatingFile_Write ?r ''0123456789ab'' ?w of
      Returns ((n, err), r', w') \<Rightarrow> Some (n, err, r_nbytes r', files w', trace w')
    | Panics \<Rightarrow> None)
     = Some (12, None, 12, [(''app.log.1'', ''old''), (''app.log'', ''0123456789ab'')],
         [(OpWrite ''app.log'', False), (OpStat ''app.log'', False),
          (OpOpen ''app.log'' 1089 420, False), (OpRename ''app.log'' ''app.log.1'', False),
          (OpRemove ''app.log.1'', False), (OpClose ''app.log'', False)])"
    by code_simp
  note T = RotatingFile_Write_rotation_trigger [OF h1 h2 h3, unfolded fn cw, simplified]
  from T h4 have "\<exists>r' w'.
      RotatingFile_Write ?r ''0123456789ab'' ?w = Returns ((12, None), r', w') \<and>
      OpClose ''app.log'' \<in> fst ` set (calls_since ?w w') \<and>
      hd (calls_since ?w w') = (OpWrite ''app.log'', False) \<and>
      content w' ''app.log.1'' = Some ''old'' \<and>
      content w' ''app.log'' = Some ''0123456789ab'' \<and>
      r_nbytes r' = 12 \<and> usable r' w'"
    by blast
  with h1 h2 h3 h4 ev show ?thesis by blast
qed


text \<open>
  C7. Once \<^verbatim>\<open>Close\<close> has succeeded on a writer of either kind, every later \<^verbatim>\<open>Write\<close>
  returns \<open>(0, ErrFileNotOpen)\<close> and does nothing else: whatever payloads are written one
  after the other, in whatever world, every result is that error, and the handler and
  the world (its files, its log of calls, its clock) are left as they were.
\<close>

theorem Write_after_Close:
  "(TimedRotatingFile_Close t w = Returns (None, t', w') \<longrightarrow>
      (\<forall>ds w2. TimedRotatingFile_Writes t' ds w2
                 = Returns (map (\<lambda>_. (0, Some ErrFileNotOpen)) ds, t', w2))) \<and>
   (RotatingFile_Close r v = (None, r', v') \<longrightarrow>
      (\<forall>ds v2. RotatingFile_Writes r' ds v2
                 = Returns (map (\<lambda>_. (0, Some ErrFileNotOpen)) ds, r', v2)))"
proof (intro conjI impI allI)
  fix ds w2
  assume "TimedRotatingFile_Close t w = Returns (None, t', w')"
  from TimedRotatingFile_Close_facts [OF this, of swallowed] have "t_w t' = None" by auto
  then show "TimedRotatingFile_Writes t' ds w2
       = Returns (map (\<lambda>_. (0, Some ErrFileNotOpen)) ds, t', w2)"
    by (rule TimedRotatingFile_Writes_closed)
next
  fix ds v2
  assume "RotatingFile_Close r v = (None, r', v')"
  then have "r_w r' = None"
    using RotatingFile_close_facts [of r v None r' v'] by (simp add: RotatingFile_Close_def)
  then show "RotatingFile_Writes r' ds v2
       = Returns (map (\<lambda>_. (0, Some ErrFileNotOpen)) ds, r', v2)"
    by (rule RotatingFile_Writes_closed)
qed

theorem Write_after_Close_witness:
  "(\<exists>t' w'. TimedRotatingFile_Close (app_timed 0) (quiet_world [(''/var/log/app.log'', ''cur'')])
                = Returns (None, t', w') \<and>
       TimedRotatingFile_Writes t' [''a'', ''b''] w'
         = Returns ([(0, Some ErrFileNotOpen), (0, Some ErrFileNotOpen)], t', w')) \<and>
   (\<exists>r' v'. RotatingFile_Close (app_log 10 1 3) (quiet_world [(''app.log'', ''cur'')])
                = (None, r', v') \<and>
       RotatingFile_Writes r' [''a'', ''b''] v'
         = Returns ([(0, Some ErrFileNotOpen), (0, Some ErrFileNotOpen)], r', v'))"
proof
  let ?t = "app_timed 0" and ?w = "quiet_world [(''/var/log/app.log'', ''cur'')]"
  have "(case TimedRotatingFile_Close ?t ?w of
           Returns (err, t', w') \<Rightarrow> Some err | Panics \<Rightarrow> None) = Some None"
    by code_simp
  then obtain t' w' where c: "TimedRotatingFile_Close ?t ?w = Returns (None, t', w')"
    by (auto split: outcome.splits)
  from Write_after_Close [where t = ?t and w = ?w and t' = t' and w' = w'] c
  have "TimedRotatingFile_Writes t' [''a'', ''b''] w'
         = Returns (map (\<lambda>_. (0, Some ErrFileNotOpen)) [''a'', ''b''], t', w')"
    by blast
  with c show "\<exists>t' w'. TimedRotatingFile_Close ?t ?w = Returns (None, t', w') \<and>
       TimedRotatingFile_Writes t' [''a'', ''b''] w'
         = Returns ([(0, Some ErrFileNotOpen), (0, Some ErrFileNotOpen)], t', w')"
    by auto
next
  let ?r = "app_log 10 1 3" and ?v = "quiet_world [(''app.log'', ''cur'')]"
  have "fst (RotatingFile_Close ?r ?v) = None"
    by code_simp
  then obtain r' v' where c: "RotatingFile_Close ?r ?v = (None, r', v')"
    by (cases "RotatingFile_Close ?r ?v") auto
  from Write_after_Close [where r = ?r and v = ?v and r' = r' and v' = v'] c
  have "RotatingFile_Writes r' [''a'', ''b''] v'
         = Returns (map (\<lambda>_. (0, Some ErrFileNotOpen)) [''a'', ''b''], r', v')"
    by blast
  with c show "\<exists>r' v'. RotatingFile_Close ?r ?v = (None, r', v') \<and>
       RotatingFile_Writes r' [''a'', ''b''] v'
         = Returns ([(0, Some ErrFileNotOpen), (0, Some ErrFileNotOpen)], r', v')"
    by auto
qed

text \<open>
  C8. The claim has \<^verbatim>\<open>WriteString(s)\<close> behave as \<^verbatim>\<open>Write\<close> of the bytes of \<open>s\<close> for both
  writers. The time-based one does. The size-based one calls the handle at once: on a
  handler with \<open>maxSize = 10\<close> that has written 8 bytes, \<^verbatim>\<open>Write\<close> of six bytes rotates
  first and counts them, while \<^verbatim>\<open>WriteString\<close> does not rotate, the file grows to 14
  bytes and the counter stays at 8; and without a handle \<^verbatim>\<open>Write\<close> returns
  \<open>ErrFileNotOpen\<close> where \<^verbatim>\<open>WriteString\<close> panics.
\<close>

theorem RotatingFile_WriteString_bypasses_Write:
  "TimedRotatingFile_WriteString t data w = TimedRotatingFile_Write t data w \<and>
   (case RotatingFile_WriteString (app_log 10 1 8) ''abcdef''
           (quiet_world [(''app.log'', ''12345678'')]) of
      Panics \<Rightarrow> None
    | Returns (res, r, w) \<Rightarrow> Some (res, r_nbytes r, files w))
     = Some ((6, None), 8, [(''app.log'', ''12345678abcdef'')]) \<and>
   (case RotatingFile_Write (app_log 10 1 8) ''abcdef''
           (quiet_world [(''app.log'', ''12345678'')]) of
      Panics \<Rightarrow> None
    | Returns (res, r, w) \<Rightarrow> Some (res, r_nbytes r, files w))
     = Some ((6, None), 6, [(''app.log.1'', ''12345678''), (''app.log'', ''abcdef'')]) \<and>
   RotatingFile_WriteString (r\<lparr>r_w := None\<rparr>) data w = Panics \<and>
   RotatingFile_Write (r\<lparr>r_w := None\<rparr>) data w
     = Returns ((0, Some ErrFileNotOpen), r\<lparr>r_w := None\<rparr>, w)"
proof (intro conjI)
  show "TimedRotatingFile_WriteString t data w = TimedRotatingFile_Write t data w"
    by (simp add: TimedRotatingFile_WriteString_def)
  show "(case RotatingFile_WriteString (app_log 10 1 8) ''abcdef''
           (quiet_world [(''app.log'', ''12345678'')]) of
      Panics \<Rightarrow> None
    | Returns (res, r, w) \<Rightarrow> Some (res, r_nbytes r, files w))
     = Some ((6, None), 8, [(''app.log'', ''12345678abcdef'')])"
    by code_simp
  show "(case RotatingFile_Write (app_log 10 1 8) ''abcdef''
           (quiet_world [(''app.log'', ''12345678'')]) of
      Panics \<Rightarrow> None
    | Returns (res, r, w) \<Rightarrow> Some (res, r_nbytes r, files w))
     = Some ((6, None), 6, [(''app.log.1'', ''12345678''), (''app.log'', ''abcdef'')])"
    by code_simp
  show "RotatingFile_WriteString (r\<lparr>r_w := None\<rparr>) data w = Panics"
    by (simp add: RotatingFile_WriteString_def WriteCloser_Write_def)
  show "RotatingFile_Write (r\<lparr>r_w := None\<rparr>) data w
     = Returns ((0, Some ErrFileNotOpen), r\<lparr>r_w := None\<rparr>, w)"
    by (simp add: RotatingFile_Write_def)
qed

text \<open>
  C9. For a time-based writer with an interval of \<open>k \<ge> 1\<close> days, a rotation leaves
  \<open>rotatorAt\<close> strictly greater than before, at a local midnight: the instant of the
  recomputation plus the interval minus the seconds elapsed since local midnight,
  whatever the time of day. Stated for a handler with a handle whose rotation is due,
  a clock that does not run backwards between the reading of \<^verbatim>\<open>shouldRollover\<close> and the
  reading of \<^verbatim>\<open>reComputeRollover\<close>, and values within the range of \<^verbatim>\<open>int64\<close>: \<^verbatim>\<open>Write\<close>
  returns, and either the rotation stopped on an error of \<^verbatim>\<open>Close\<close> or \<^verbatim>\<open>os.Rename\<close>
  before the recomputation, or the recomputation ran and \<open>rotatorAt\<close> is as claimed.
\<close>

theorem rotatorAt_advances:
  assumes "t_w t \<noteq> None" and "t_interval t = k * day" and "1 \<le> k"
    and "0 \<le> clock w (Suc (ticks w))"
    and "clock w (Suc (ticks w)) + t_interval t < 2 ^ 63"
    and "clock w (ticks w) \<le> clock w (Suc (ticks w))"
    and "t_rotatorAt t \<le> clock w (ticks w)"
  shows "\<exists>n err t' w'. TimedRotatingFile_Write t data w = Returns ((n, err), t', w') \<and>
     (err \<noteq> None \<and> ticks w' = Suc (ticks w) \<and> t_rotatorAt t' = t_rotatorAt t
      \<or> ticks w' = Suc (Suc (ticks w)) \<and>
        t_rotatorAt t < t_rotatorAt t' \<and>
        t_rotatorAt t' =
          clock w (Suc (ticks w)) + t_interval t
            - local_seconds w (clock w (Suc (ticks w))) mod 86400 \<and>
        (t_rotatorAt t' + zone w (clock w (Suc (ticks w)))) mod 86400 = 0)"
proof -
  let ?now = "clock w (Suc (ticks w))"
  let ?el = "local_seconds w ?now mod 86400"
  obtain n err t' w' where W: "TimedRotatingFile_Write t data w = Returns ((n, err), t', w')"
    using TimedRotatingFile_Write_returns by blast
  have v: "int64 (?now + int64 (t_interval t - int64 ?el)) = ?now + t_interval t - ?el"
    using assms(2-5) by (rule rotatorAt_value)
  have el: "0 \<le> ?el" "?el < 86400" by simp_all
  have iv: "86400 \<le> t_interval t" using assms(2,3) by (simp add: day_def)
  have gt: "t_rotatorAt t < ?now + t_interval t - ?el"
    using el iv assms(6,7) by linarith
  have "(?now + t_interval t - ?el + zone w ?now) mod 86400
      = ((local_seconds w ?now - ?el) + k * 86400) mod 86400"
    using assms(2) by (simp add: local_seconds_def day_def algebra_simps)
  also have "\<dots> = (local_seconds w ?now - ?el) mod 86400" by simp
  also have "\<dots> = 0" by (simp add: minus_mod_eq_mult_div)
  finally have md: "(?now + t_interval t - ?el + zone w ?now) mod 86400 = 0" .
  from TimedRotatingFile_Write_facts [OF W] assms(1,7) v gt md W show ?thesis
    by auto
qed

theorem rotatorAt_advances_witness:
  "t_w (app_timed 1699920000) \<noteq> None \<and>
   t_interval (app_timed 1699920000) = 1 * day \<and>
   (1::int) \<le> 1 \<and>
   0 \<le> clock (quiet_world [(''/var/log/app.log'', ''cur'')])
          (Suc (ticks (quiet_world [(''/var/log/app.log'', ''cur'')]))) \<and>
   clock (quiet_world [(''/var/log/app.log'', ''cur'')])
      (Suc (ticks (quiet_world [(''/var/log/app.log'', ''cur'')])))
     + t_interval (app_timed 1699920000) < 2 ^ 63 \<and>
   clock (quiet_world [(''/var/log/app.log'', ''cur'')])
      (ticks (quiet_world [(''/var/log/app.log'', ''cur'')]))
     \<le> clock (quiet_world [(''/var/log/app.log'', ''cur'')])
          (Suc (ticks (quiet_world [(''/var/log/app.log'', ''cur'')]))) \<and>
   t_rotatorAt (app_timed 1699920000)
     \<le> clock (quiet_world [(''/var/log/app.log'', ''cur'')])
          (ticks (quiet_world [(''/var/log/app.log'', ''cur'')])) \<and>
   (\<exists>n err t' w'.
      TimedRotatingFile_Write (app_timed 1699920000) ''x''
          (quiet_world [(''/var/log/app.log'', ''cur'')]) = Returns ((n, err), t', w') \<and>
      (err \<noteq> None \<and> t_rotatorAt t' = 1699920000 \<or> t_rotatorAt t' = 1700006400)) \<and>
   (case TimedRotatingFile_Write (app_timed 1699920000) ''x''
           (quiet_world [(''/var/log/app.log'', ''cur'')]) of
      Panics \<Rightarrow> None
    | Returns ((n, err), t', w') \<Rightarrow> Some (n, err, t_rotatorAt t', files w'))
     = Some (1, None, 1700006400,
             [(''/var/log/app.log.2023-11-13'', ''cur''), (''/var/log/app.log'', ''x'')])"
proof -
  let ?t = "app_timed 1699920000" and ?w = "quiet_world [(''/var/log/app.log'', ''cur'')]"
  have h1: "t_w ?t \<noteq> None" by (simp add: app_timed_def)
  have h2: "t_interval ?t = 1 * day" by (simp add: app_timed_def day_def)
  have h3: "(1::int) \<le> 1" by simp
  have c: "clock ?w (Suc (ticks ?w)) = 1700000001" "clock ?w (ticks ?w) = 1700000000"
    "t_interval ?t = 86400" "t_rotatorAt ?t = 1699920000"
    "zone ?w 1700000001 = 0" "local_seconds ?w 1700000001 = 1700000001"
    by (simp_all add: quiet_world_def app_timed_def local_seconds_def)
  have h4: "0 \<le> clock ?w (Suc (ticks ?w))" unfolding c by simp
  have h5: "clock ?w (Suc (ticks ?w)) + t_interval ?t < 2 ^ 63" unfolding c by simp
  have h6: "clock ?w (ticks ?w) \<le> clock ?w (Suc (ticks ?w))" unfolding c by simp
  have h7: "t_rotatorAt ?t \<le> clock ?w (ticks ?w)" unfolding c by simp
  note T = rotatorAt_advances [OF h1 h2 h3 h4 h5 h6 h7, of "''x''", unfolded c, simplified]
  have ev: "(case TimedRotatingFile_Write ?t ''x'' ?w of
      Panics \<Rightarrow> None
    | Returns ((n, err), t', w') \<Rightarrow> Some (n, err, t_rotatorAt t', files w'))
     = Some (1, None, 1700006400,
             [(''/var/log/app.log.2023-11-13'', ''cur''), (''/var/log/app.log'', ''x'')])"
    by code_simp
  from T h1 h2 h3 h4 h5 h6 h7 ev show ?thesis by blast
qed

text \<open>
  C10. \<^verbatim>\<open>Close\<close> on a time-based writer without a handle panics instead of returning
  an error: whenever the handle is nil, so on a second \<^verbatim>\<open>Close\<close> after a successful one,
  and on a \<^verbatim>\<open>Close\<close> after a \<^verbatim>\<open>Write\<close> whose rotation failed to reopen the file (the
  \<^verbatim>\<open>Write\<close> that returned the error of \<^verbatim>\<open>os.OpenFile\<close>).
\<close>

theorem Close_without_handle_panics:
  "(t_w t = None \<longrightarrow> TimedRotatingFile_Close t w = Panics) \<and>
   (TimedRotatingFile_Close t w = Returns (None, t', w') \<longrightarrow>
      TimedRotatingFile_Close t' w2 = Panics) \<and>
   (TimedRotatingFile_Write t data w = Returns ((n, Some (FsFailure (OpOpen p m q))), t', w') \<longrightarrow>
      TimedRotatingFile_Close t' w2 = Panics)"
proof (intro conjI impI)
  show "TimedRotatingFile_Close t w = Panics" if "t_w t = None"
    using that by (simp add: TimedRotatingFile_Close_panics)
  show "TimedRotatingFile_Close t' w2 = Panics"
    if "TimedRotatingFile_Close t w = Returns (None, t', w')"
    using TimedRotatingFile_Close_facts [OF that, of swallowed]
    by (auto simp: TimedRotatingFile_Close_panics)
  show "TimedRotatingFile_Close t' w2 = Panics"
    if "TimedRotatingFile_Write t data w = Returns ((n, Some (FsFailure (OpOpen p m q))), t', w')"
    using TimedRotatingFile_Write_facts [OF that]
    by (auto simp: TimedRotatingFile_Close_panics)
qed

theorem Close_without_handle_panics_witness:
  "(\<exists>t' w'. TimedRotatingFile_Close (app_timed 0) (quiet_world []) = Returns (None, t', w') \<and>
       TimedRotatingFile_Close t' w' = Panics) \<and>
   (\<exists>n p m q t' w'.
       TimedRotatingFile_Write (app_timed 1699920000) ''x''
           (failing_world is_open [(''/var/log/app.log'', ''cur'')])
         = Returns ((n, Some (FsFailure (OpOpen p m q))), t', w') \<and>
       TimedRotatingFile_Close t' w' = Panics)"
proof
  have "(case TimedRotatingFile_Close (app_timed 0) (quiet_world []) of
           Returns (None, t', w') \<Rightarrow> True | _ \<Rightarrow> False)"
    by code_simp
  then obtain t' w' where
    c: "TimedRotatingFile_Close (app_timed 0) (quiet_world []) = Returns (None, t', w')"
    by (auto split: outcome.splits option.splits)
  from Close_without_handle_panics [where t = "app_timed 0" and w = "quiet_world []"
      and t' = t' and w' = w' and ?w2.0 = w'] c
  show "\<exists>t' w'. TimedRotatingFile_Close (app_timed 0) (quiet_world []) = Returns (None, t', w') \<and>
       TimedRotatingFile_Close t' w' = Panics"
    by blast
next
  let ?t = "app_timed 1699920000" and ?w = "failing_world is_open [(''/var/log/app.log'', ''cur'')]"
  have "(case TimedRotatingFile_Write ?t ''x'' ?w of
           Returns ((n, err), t', w') \<Rightarrow> Some err | Panics \<Rightarrow> None)
        = Some (Some (FsFailure (OpOpen ''/var/log/app.log'' 1089 420)))"
    by code_simp
  then obtain n t' w' where
    c: "TimedRotatingFile_Write ?t ''x'' ?w
          = Returns ((n, Some (FsFailure (OpOpen ''/var/log/app.log'' 1089 420))), t', w')"
    by (auto split: outcome.splits)
  from Close_without_handle_panics [where t = ?t and w = ?w and data = "''x''" and n = n
      and p = "''/var/log/app.log''" and m = 1089 and q = 420 and t' = t' and w' = w'
      and ?w2.0 = w'] c
  show "\<exists>n p m q t' w'.
       TimedRotatingFile_Write ?t ''x'' ?w
         = Returns ((n, Some (FsFailure (OpOpen p m q))), t', w') \<and>
       TimedRotatingFile_Close t' w' = Panics"
    by blast
qed

end
